theory Spec2Isabelle
  imports Main "HOL-Library.Sublist"
begin

section \<open>The three pipeline stages: Loader, Transformer, Analyzer\<close>

text \<open>
  The repository holds three Python scripts, \<^verbatim>\<open>load_data.py\<close>, \<^verbatim>\<open>process_data.py\<close> and
  \<^verbatim>\<open>analyze_results.py\<close>. Each is a process that takes two positional arguments, prints
  to standard output, touches the file system and ends with an exit code. The embedding
  follows the scripts statement by statement:

  \<^item> a Python value that is written to or read from JSON is a \<open>json\<close>; a \<open>dict\<close> is an
    association list in insertion order (the keys of a \<open>dict\<close> are distinct);
  \<^item> a Python \<open>str\<close> is a \<open>string\<close>, one \<open>char\<close> per code point, so the model covers the
    code points below 256; the content of a file is a \<open>string\<close> of bytes;
  \<^item> an exception is a value \<open>pyerror\<close>; a function that may raise returns
    \<open>pyerror + 'a\<close>, together with the world as the exception left it;
  \<^item> the world is the file system (a tree of directories and files under absolute,
    resolved locations, with a current directory) and the lines written to standard
    output; every \<open>print\<close> ends its text with a line break, so standard output is the list
    of its lines;
  \<^item> what the scripts take from the interpreter and cannot be computed here is a
    parameter, gathered in \<open>platform\<close>: the readings of the clock, the JSON parser,
    \<open>str.upper\<close>, the text of a rounded float, the message of an exception and the size
    the file system reports for a directory.
\<close>

subsection \<open>JSON values and \<open>json.dumps\<close>\<close>

datatype json =
    JNull
  | JBool bool
  | JInt int
  | JFloat string
  | JStr string
  | JArr "json list"
  | JObj "(string \<times> json) list"

text \<open>A float is kept as the text \<open>repr\<close> gives it: the literal \<open>95.5\<close> is \<open>JFloat ''95.5''\<close>.\<close>

fun str_nat :: "nat \<Rightarrow> string" where
  "str_nat n = (if n < 10 then [char_of (48 + n)] else str_nat (n div 10) @ [char_of (48 + n mod 10)])"

definition str_int :: "int \<Rightarrow> string" where
  "str_int i = (if i < 0 then CHR ''-'' # str_nat (nat (- i)) else str_nat (nat i))"

definition hex_digit :: "nat \<Rightarrow> char" where
  "hex_digit d = (if d < 10 then char_of (48 + d) else char_of (87 + d))"

text \<open>
  \<open>json.encoder.py_encode_basestring_ascii\<close> (\<open>ensure_ascii\<close> is the default): a backslash,
  a double quote and every character outside \<open>' '..'~'\<close> is escaped.
\<close>

definition esc_char :: "char \<Rightarrow> string" where
  "esc_char c =
     (if c = CHR 0x5C then [CHR 0x5C, CHR 0x5C]
      else if c = CHR 0x22 then [CHR 0x5C, CHR 0x22]
      else if c = CHR 0x08 then [CHR 0x5C, CHR ''b'']
      else if c = CHR 0x0C then [CHR 0x5C, CHR ''f'']
      else if c = CHR 0x0A then [CHR 0x5C, CHR ''n'']
      else if c = CHR 0x0D then [CHR 0x5C, CHR ''r'']
      else if c = CHR 0x09 then [CHR 0x5C, CHR ''t'']
      else if (32::nat) \<le> of_char c \<and> of_char c \<le> (126::nat) then [c]
      else [CHR 0x5C, CHR ''u'', CHR ''0'', CHR ''0'',
            hex_digit (of_char c div 16), hex_digit (of_char c mod 16)])"

definition json_str :: "string \<Rightarrow> string" where
  "json_str s = CHR 0x22 # concat (map esc_char s) @ [CHR 0x22]"

fun join :: "string \<Rightarrow> string list \<Rightarrow> string" where
  "join sep [] = []"
| "join sep [x] = x"
| "join sep (x # y # ys) = x @ sep @ join sep (y # ys)"

text \<open>\<open>json.dumps(obj)\<close>: one line, items separated by \<open>', '\<close>, keys by \<open>': '\<close>.\<close>

fun json_dumps :: "json \<Rightarrow> string" where
  "json_dumps JNull = ''null''"
| "json_dumps (JBool b) = (if b then ''true'' else ''false'')"
| "json_dumps (JInt i) = str_int i"
| "json_dumps (JFloat r) = r"
| "json_dumps (JStr s) = json_str s"
| "json_dumps (JArr xs) = ''['' @ join '', '' (map json_dumps xs) @ '']''"
| "json_dumps (JObj kvs) =
     ''{'' @ join '', '' (map (\<lambda>kv. json_str (fst kv) @ '': '' @ json_dumps (snd kv)) kvs) @ ''}''"

definition newline_indent :: "nat \<Rightarrow> string" where
  "newline_indent level = CHR 0x0A # replicate (2 * level) CHR '' ''"

text \<open>\<open>json.dump(obj, f, indent=2)\<close>: the text written to the file, at nesting depth \<open>level\<close>.\<close>

fun json_dump_indent :: "nat \<Rightarrow> json \<Rightarrow> string" where
  "json_dump_indent level (JArr xs) =
     (if xs = [] then ''[]''
      else ''['' @ newline_indent (Suc level)
           @ join ('','' @ newline_indent (Suc level)) (map (json_dump_indent (Suc level)) xs)
           @ newline_indent level @ '']'')"
| "json_dump_indent level (JObj kvs) =
     (if kvs = [] then ''{}''
      else ''{'' @ newline_indent (Suc level)
           @ join ('','' @ newline_indent (Suc level))
               (map (\<lambda>kv. json_str (fst kv) @ '': '' @ json_dump_indent (Suc level) (snd kv)) kvs)
           @ newline_indent level @ ''}'')"
| "json_dump_indent level j = json_dumps j"

subsection \<open>Exceptions and the operations of Python values\<close>

datatype pyerror =
    FileNotFoundError string
  | NotADirectoryError string
  | IsADirectoryError string
  | PermissionError string
  | FileExistsError string
  | ValueError string
  | KeyError string
  | TypeError
  | AttributeError

text \<open>
  The first five are the \<open>OSError\<close>s of the file system, with the path of the call.
  \<open>ValueError\<close> is what reading and parsing JSON raises (\<open>JSONDecodeError\<close> and
  \<open>UnicodeDecodeError\<close> are its subclasses). Every one of them is an \<open>Exception\<close>.
\<close>

definition is_file_exists :: "pyerror \<Rightarrow> bool" where
  "is_file_exists e = (case e of FileExistsError p \<Rightarrow> True | _ \<Rightarrow> False)"

text \<open>\<open>obj[key]\<close> for a string key: only a \<open>dict\<close> can be subscripted with a string.\<close>

definition py_getitem :: "json \<Rightarrow> string \<Rightarrow> pyerror + json" where
  "py_getitem obj k =
     (case obj of
        JObj kvs \<Rightarrow> (case map_of kvs k of Some v \<Rightarrow> Inr v | None \<Rightarrow> Inl (KeyError k))
      | _ \<Rightarrow> Inl TypeError)"

text \<open>\<open>for x in obj\<close>: a list gives its elements, a dict its keys, a string its characters.\<close>

definition py_iter :: "json \<Rightarrow> pyerror + json list" where
  "py_iter obj =
     (case obj of
        JArr xs \<Rightarrow> Inr xs
      | JObj kvs \<Rightarrow> Inr (map (\<lambda>kv. JStr (fst kv)) kvs)
      | JStr s \<Rightarrow> Inr (map (\<lambda>c. JStr [c]) s)
      | _ \<Rightarrow> Inl TypeError)"

definition py_len :: "json \<Rightarrow> pyerror + nat" where
  "py_len obj =
     (case obj of
        JArr xs \<Rightarrow> Inr (length xs)
      | JObj kvs \<Rightarrow> Inr (length kvs)
      | JStr s \<Rightarrow> Inr (length s)
      | _ \<Rightarrow> Inl TypeError)"

text \<open>\<open>repr\<close> of a string: the quote is \<open>"\<close> when the string has a \<open>'\<close> and no \<open>"\<close>.\<close>

definition repr_quote :: "string \<Rightarrow> char" where
  "repr_quote s = (if CHR 0x27 \<in> set s \<and> CHR 0x22 \<notin> set s then CHR 0x22 else CHR 0x27)"

definition hex_escape :: "char \<Rightarrow> string" where
  "hex_escape c = [CHR 0x5C, CHR ''x'', hex_digit (of_char c div 16), hex_digit (of_char c mod 16)]"

definition repr_char :: "char \<Rightarrow> char \<Rightarrow> string" where
  "repr_char q c =
     (if c = q \<or> c = CHR 0x5C then [CHR 0x5C, c]
      else if c = CHR 0x09 then [CHR 0x5C, CHR ''t'']
      else if c = CHR 0x0A then [CHR 0x5C, CHR ''n'']
      else if c = CHR 0x0D then [CHR 0x5C, CHR ''r'']
      else if (of_char c :: nat) < 32 \<or> (of_char c :: nat) = 127 then hex_escape c
      else if (of_char c :: nat) < 127 then [c]
      else if (of_char c :: nat) \<le> 160 \<or> (of_char c :: nat) = 173 then hex_escape c
      else [c])"

definition repr_str :: "string \<Rightarrow> string" where
  "repr_str s = repr_quote s # concat (map (repr_char (repr_quote s)) s) @ [repr_quote s]"

fun py_repr :: "json \<Rightarrow> string" where
  "py_repr JNull = ''None''"
| "py_repr (JBool b) = (if b then ''True'' else ''False'')"
| "py_repr (JInt i) = str_int i"
| "py_repr (JFloat r) = r"
| "py_repr (JStr s) = repr_str s"
| "py_repr (JArr xs) = ''['' @ join '', '' (map py_repr xs) @ '']''"
| "py_repr (JObj kvs) =
     ''{'' @ join '', '' (map (\<lambda>kv. repr_str (fst kv) @ '': '' @ py_repr (snd kv)) kvs) @ ''}''"

text \<open>A replacement field \<open>{x}\<close> of an f-string is \<open>str(x)\<close>.\<close>

definition py_format :: "json \<Rightarrow> string" where
  "py_format obj = (case obj of JStr s \<Rightarrow> s | _ \<Rightarrow> py_repr obj)"

subsection \<open>The platform\<close>

record platform =
  now :: "nat \<Rightarrow> string"
  json_load :: "string \<Rightarrow> pyerror + json"
  str_upper :: "string \<Rightarrow> string"
  round_kb :: "nat \<Rightarrow> string"
  exc_str :: "pyerror \<Rightarrow> string"
  dir_size :: "string list \<Rightarrow> nat"

text \<open>
  \<^item> \<open>now env k\<close> is \<open>datetime.now().isoformat()\<close> at the \<open>k\<close>-th reading of the clock by the
    running process, counted from 0;
  \<^item> \<open>json_load env bytes\<close> is \<open>json.load\<close> on an open file with these bytes: the parsed
    value, or the exception of the decoder or the parser;
  \<^item> \<open>str_upper env s\<close> is \<open>s.upper()\<close>;
  \<^item> \<open>round_kb env n\<close> is the \<open>repr\<close> of the float \<open>round(n / 1024, 2)\<close>;
  \<^item> \<open>exc_str env e\<close> is \<open>str(e)\<close>;
  \<^item> \<open>dir_size env loc\<close> is the \<open>st_size\<close> of the directory at \<open>loc\<close>.
\<close>

definition py_upper :: "platform \<Rightarrow> json \<Rightarrow> pyerror + json" where
  "py_upper env obj = (case obj of JStr s \<Rightarrow> Inr (JStr (str_upper env s)) | _ \<Rightarrow> Inl AttributeError)"

subsection \<open>The world: file system and standard output\<close>

datatype node = File bool bool string | Dir bool

text \<open>
  \<open>File r w bytes\<close> is a regular file that may be read (\<open>r\<close>) and written (\<open>w\<close>);
  \<open>Dir w\<close> is a directory in which entries may be created (\<open>w\<close>). A location is the list
  of names from the root; there are no symbolic links.
\<close>

record world =
  cwd :: "string list"
  nodes :: "string list \<Rightarrow> node option"
  stdout :: "string list"

fun split_on :: "char \<Rightarrow> string \<Rightarrow> string list" where
  "split_on sep [] = [[]]"
| "split_on sep (c # cs) =
     (if c = sep then [] # split_on sep cs
      else (case split_on sep cs of [] \<Rightarrow> [[c]] | l # ls \<Rightarrow> (c # l) # ls))"

definition lines_of :: "string \<Rightarrow> string list" where
  "lines_of s = split_on CHR 0x0A s"

definition py_print :: "string \<Rightarrow> world \<Rightarrow> world" where
  "py_print s w = w\<lparr>stdout := stdout w @ lines_of s\<rparr>"

text \<open>\<open>posixpath.split\<close> and \<open>posixpath.dirname\<close>.\<close>

definition rstrip_sep :: "string \<Rightarrow> string" where
  "rstrip_sep s = rev (dropWhile (\<lambda>c. c = CHR ''/'') (rev s))"

definition path_split :: "string \<Rightarrow> string \<times> string" where
  "path_split p =
     (let head = rev (dropWhile (\<lambda>c. c \<noteq> CHR ''/'') (rev p));
          tail = rev (takeWhile (\<lambda>c. c \<noteq> CHR ''/'') (rev p))
      in (if head \<noteq> [] \<and> \<not> list_all (\<lambda>c. c = CHR ''/'') head then rstrip_sep head else head, tail))"

definition dirname :: "string \<Rightarrow> string" where
  "dirname p = fst (path_split p)"

text \<open>
  Path resolution: the empty path names nothing; a path that starts with \<open>/\<close> is walked
  from the root, any other from the current directory; each name is looked up in a
  directory that exists. The location a path resolves to need not exist.
\<close>

fun walk :: "(string list \<Rightarrow> node option) \<Rightarrow> string \<Rightarrow> string list \<Rightarrow> string list \<Rightarrow> pyerror + string list" where
  "walk nd p cur [] = Inr cur"
| "walk nd p cur (c # cs) =
     (case nd cur of
        None \<Rightarrow> Inl (FileNotFoundError p)
      | Some (File r wr b) \<Rightarrow> Inl (NotADirectoryError p)
      | Some (Dir wr) \<Rightarrow>
          walk nd p (if c = ''.'' then cur else if c = ''..'' then butlast cur else cur @ [c]) cs)"

definition resolve :: "world \<Rightarrow> string \<Rightarrow> pyerror + string list" where
  "resolve w p =
     (if p = [] then Inl (FileNotFoundError p)
      else walk (nodes w) p (if hd p = CHR ''/'' then [] else cwd w)
             (filter (\<lambda>c. c \<noteq> []) (split_on CHR ''/'' p)))"

definition ends_sep :: "string \<Rightarrow> bool" where
  "ends_sep p = (p \<noteq> [] \<and> last p = CHR ''/'')"

definition os_stat :: "world \<Rightarrow> string \<Rightarrow> pyerror + (string list \<times> node)" where
  "os_stat w p =
     (case resolve w p of
        Inl e \<Rightarrow> Inl e
      | Inr loc \<Rightarrow>
          (case nodes w loc of
             None \<Rightarrow> Inl (FileNotFoundError p)
           | Some (File r wr b) \<Rightarrow>
               if ends_sep p then Inl (NotADirectoryError p) else Inr (loc, File r wr b)
           | Some (Dir wr) \<Rightarrow> Inr (loc, Dir wr)))"

definition path_exists :: "world \<Rightarrow> string \<Rightarrow> bool" where
  "path_exists w p = (case os_stat w p of Inl e \<Rightarrow> False | Inr n \<Rightarrow> True)"

definition path_isdir :: "world \<Rightarrow> string \<Rightarrow> bool" where
  "path_isdir w p = (case os_stat w p of Inr (loc, Dir wr) \<Rightarrow> True | _ \<Rightarrow> False)"

definition getsize :: "platform \<Rightarrow> world \<Rightarrow> string \<Rightarrow> pyerror + nat" where
  "getsize env w p =
     (case os_stat w p of
        Inl e \<Rightarrow> Inl e
      | Inr (loc, File r wr b) \<Rightarrow> Inr (length b)
      | Inr (loc, Dir wr) \<Rightarrow> Inr (dir_size env loc))"

text \<open>Creating the entry at \<open>loc\<close>: its parent must be a directory that may be written.\<close>

definition create_entry :: "world \<Rightarrow> string \<Rightarrow> string list \<Rightarrow> node \<Rightarrow> pyerror + world" where
  "create_entry w p loc n =
     (case nodes w (butlast loc) of
        None \<Rightarrow> Inl (FileNotFoundError p)
      | Some (File r wr b) \<Rightarrow> Inl (NotADirectoryError p)
      | Some (Dir wr) \<Rightarrow>
          if wr then Inr (w\<lparr>nodes := (nodes w)(loc \<mapsto> n)\<rparr>) else Inl (PermissionError p))"

definition os_mkdir :: "world \<Rightarrow> string \<Rightarrow> pyerror + world" where
  "os_mkdir w p =
     (case resolve w p of
        Inl e \<Rightarrow> Inl e
      | Inr loc \<Rightarrow>
          (case nodes w loc of
             Some n \<Rightarrow> Inl (FileExistsError p)
           | None \<Rightarrow> if loc = [] then Inl (FileExistsError p) else create_entry w p loc (Dir True)))"

text \<open>\<open>open(p, 'r')\<close> and reading all of it.\<close>

definition open_read :: "world \<Rightarrow> string \<Rightarrow> pyerror + string" where
  "open_read w p =
     (case os_stat w p of
        Inl e \<Rightarrow> Inl e
      | Inr (loc, Dir wr) \<Rightarrow> Inl (IsADirectoryError p)
      | Inr (loc, File r wr b) \<Rightarrow> if r then Inr b else Inl (PermissionError p))"

text \<open>\<open>open(p, 'w')\<close>, writing \<open>bytes\<close> and closing: the file is created or replaced.\<close>

definition open_write :: "world \<Rightarrow> string \<Rightarrow> string \<Rightarrow> pyerror + world" where
  "open_write w p bytes =
     (case resolve w p of
        Inl e \<Rightarrow> Inl e
      | Inr loc \<Rightarrow>
          (case nodes w loc of
             Some (Dir wr) \<Rightarrow> Inl (IsADirectoryError p)
           | Some (File r wr b) \<Rightarrow>
               if ends_sep p then Inl (NotADirectoryError p)
               else if wr then Inr (w\<lparr>nodes := (nodes w)(loc \<mapsto> File r wr bytes)\<rparr>)
               else Inl (PermissionError p)
           | None \<Rightarrow>
               if ends_sep p \<or> loc = [] then Inl (IsADirectoryError p)
               else create_entry w p loc (File True True bytes)))"

text \<open>
  \<open>os.makedirs(name, exist_ok=True)\<close>: the head of \<open>name\<close> is made first when it does not
  exist, then \<open>name\<close> itself; an \<open>OSError\<close> of that last \<open>mkdir\<close> is dropped when \<open>name\<close>
  is a directory.
\<close>

definition makedirs_head :: "string \<Rightarrow> string" where
  "makedirs_head name =
     (if snd (path_split name) = [] then fst (path_split (fst (path_split name)))
      else fst (path_split name))"

definition makedirs_tail :: "string \<Rightarrow> string" where
  "makedirs_tail name =
     (if snd (path_split name) = [] then snd (path_split (fst (path_split name)))
      else snd (path_split name))"

definition mkdir_exist_ok :: "world \<Rightarrow> string \<Rightarrow> pyerror option \<times> world" where
  "mkdir_exist_ok w name =
     (case os_mkdir w name of
        Inr w' \<Rightarrow> (None, w')
      | Inl e \<Rightarrow> if path_isdir w name then (None, w) else (Some e, w))"

function makedirs :: "world \<Rightarrow> string \<Rightarrow> pyerror option \<times> world" where
  "makedirs w name =
     (if makedirs_head name \<noteq> [] \<and> makedirs_tail name \<noteq> [] \<and> \<not> path_exists w (makedirs_head name)
      then (case makedirs w (makedirs_head name) of
              (Some e, w1) \<Rightarrow>
                if is_file_exists e
                then (if makedirs_tail name = ''.'' then (None, w1) else mkdir_exist_ok w1 name)
                else (Some e, w1)
            | (None, w1) \<Rightarrow>
                if makedirs_tail name = ''.'' then (None, w1) else mkdir_exist_ok w1 name)
      else mkdir_exist_ok w name)"
  by pat_completeness auto
termination
proof (relation "measure (\<lambda>(w, name). length name)")
  show "wf (measure (\<lambda>(w, name). length name))"
    by simp
next
  fix w :: world and name :: string
  have split_len: "length (fst (path_split q)) + length (snd (path_split q)) \<le> length q" for q
  proof -
    have a: "length (dropWhile (\<lambda>c. c \<noteq> CHR ''/'') (rev q)) + length (takeWhile (\<lambda>c. c \<noteq> CHR ''/'') (rev q)) = length q"
      by (metis add.commute length_append length_rev takeWhile_dropWhile_id)
    have b: "length (rstrip_sep h) \<le> length h" for h
      by (simp add: rstrip_sep_def length_dropWhile_le[of _ "rev h", simplified])
    show ?thesis
      using a b[of "rev (dropWhile (\<lambda>c. c \<noteq> CHR ''/'') (rev q))"]
      by (auto simp: path_split_def Let_def)
  qed
  assume "makedirs_head name \<noteq> [] \<and> makedirs_tail name \<noteq> [] \<and> \<not> path_exists w (makedirs_head name)"
  then have t: "makedirs_tail name \<noteq> []"
    by simp
  have "length (makedirs_head name) < length name"
  proof (cases "snd (path_split name) = []")
    case True
    with t have "snd (path_split (fst (path_split name))) \<noteq> []"
      by (simp add: makedirs_tail_def)
    then have "length (fst (path_split (fst (path_split name)))) < length (fst (path_split name))"
      using split_len[of "fst (path_split name)"] by (cases "snd (path_split (fst (path_split name)))") auto
    moreover have "length (fst (path_split name)) \<le> length name"
      using split_len[of name] by simp
    ultimately show ?thesis
      using True by (simp add: makedirs_head_def)
  next
    case False
    then have "length (fst (path_split name)) < length name"
      using split_len[of name] by (cases "snd (path_split name)") auto
    then show ?thesis
      using False by (simp add: makedirs_head_def)
  qed
  then show "((w, makedirs_head name), (w, name)) \<in> measure (\<lambda>(w, name). length name)"
    by simp
qed

subsection \<open>Raising\<close>

text \<open>
  \<open>raise_or r w k\<close>: when \<open>r\<close> is an exception it leaves the function, with the world \<open>w\<close>
  as it is then; otherwise the function goes on with the value.
\<close>

definition raise_or :: "pyerror + 'a \<Rightarrow> world \<Rightarrow> ('a \<Rightarrow> (pyerror + 'b) \<times> world) \<Rightarrow> (pyerror + 'b) \<times> world" where
  "raise_or r w k = (case r of Inl e \<Rightarrow> (Inl e, w) | Inr v \<Rightarrow> k v)"

subsection \<open>\<^verbatim>\<open>load_data.py\<close>\<close>

definition sample_record :: "platform \<Rightarrow> int \<Rightarrow> json" where
  "sample_record env i =
     JObj [(''id'', JInt i),
           (''value'', JStr (''record_'' @ str_int i)),
           (''timestamp'', JStr (now env (nat i)))]"

definition sample_data :: "platform \<Rightarrow> string \<Rightarrow> json" where
  "sample_data env input_file =
     JObj [(''source_file'', JStr input_file),
           (''loaded_at'', JStr (now env 0)),
           (''records_count'', JInt 1000),
           (''data'', JArr (map (sample_record env) [1..100])),
           (''metadata'', JObj [(''file_size'', JStr ''2.5MB''),
                                (''format'', JStr ''JSON''),
                                (''encoding'', JStr ''UTF-8'')])]"

definition load_data :: "platform \<Rightarrow> string \<Rightarrow> string \<Rightarrow> world \<Rightarrow> (pyerror + json) \<times> world" where
  "load_data env input_file output_file w =
     (let w1 = py_print (''Loading data from: '' @ input_file) w;
          sd = sample_data env input_file
      in case makedirs w1 (dirname output_file) of
           (Some e, w2) \<Rightarrow> (Inl e, w2)
         | (None, w2) \<Rightarrow>
             raise_or (open_write w2 output_file (json_dump_indent 0 sd)) w2 (\<lambda>w3.
             raise_or (py_getitem sd ''records_count'') w3 (\<lambda>rc.
             let w4 = py_print (''Data loaded successfully. Records: '' @ py_format rc) w3;
                 w5 = py_print (''Output saved to: '' @ output_file) w4
             in raise_or (py_getitem sd ''records_count'') w5 (\<lambda>records_loaded.
                raise_or (py_getitem sd ''metadata'') w5 (\<lambda>metadata.
                raise_or (py_getitem metadata ''file_size'') w5 (\<lambda>file_size.
                  (Inr (JObj [(''status'', JStr ''success''),
                              (''records_loaded'', records_loaded),
                              (''output_file'', JStr output_file),
                              (''file_size'', file_size)]), w5)))))))"

definition main_load :: "platform \<Rightarrow> string list \<Rightarrow> world \<Rightarrow> nat \<times> world" where
  "main_load env args w =
     (if length args \<noteq> 2
      then (1, py_print ''Usage: python load_data.py <input_file> <output_file>'' w)
      else (case load_data env (args ! 0) (args ! 1) w of
              (Inr result, w1) \<Rightarrow> (0, py_print (''LOAD_RESULT: '' @ json_dumps result) w1)
            | (Inl e, w1) \<Rightarrow> (1, py_print (''Error loading data: '' @ exc_str env e) w1)))"

subsection \<open>\<^verbatim>\<open>process_data.py\<close>\<close>

text \<open>The body of the loop, for the record met at the \<open>k\<close>-th reading of the clock.\<close>

definition process_record :: "platform \<Rightarrow> nat \<Rightarrow> json \<Rightarrow> pyerror + json" where
  "process_record env k record =
     (case py_getitem record ''id'' of Inl e \<Rightarrow> Inl e | Inr rid \<Rightarrow>
      case py_getitem record ''value'' of Inl e \<Rightarrow> Inl e | Inr v \<Rightarrow>
      case py_upper env v of Inl e \<Rightarrow> Inl e | Inr processed_value \<Rightarrow>
      case py_getitem record ''timestamp'' of Inl e \<Rightarrow> Inl e | Inr ts \<Rightarrow>
        Inr (JObj [(''id'', rid),
                   (''processed_value'', processed_value),
                   (''processed_timestamp'', JStr (now env k)),
                   (''original_timestamp'', ts),
                   (''transformation_applied'', JStr ''uppercase_conversion'')]))"

fun process_records :: "platform \<Rightarrow> nat \<Rightarrow> json list \<Rightarrow> pyerror + json list" where
  "process_records env k [] = Inr []"
| "process_records env k (record # rest) =
     (case process_record env k record of
        Inl e \<Rightarrow> Inl e
      | Inr r \<Rightarrow> (case process_records env (Suc k) rest of Inl e \<Rightarrow> Inl e | Inr rs \<Rightarrow> Inr (r # rs)))"

definition processed_data :: "platform \<Rightarrow> string \<Rightarrow> json \<Rightarrow> json list \<Rightarrow> json" where
  "processed_data env input_file original_count processed_records =
     JObj [(''source_file'', JStr input_file),
           (''processed_at'', JStr (now env (length processed_records))),
           (''original_records_count'', original_count),
           (''processed_records_count'', JInt (int (length processed_records))),
           (''transformations'', JArr [JStr ''uppercase_conversion'', JStr ''timestamp_normalization'']),
           (''data'', JArr processed_records),
           (''metadata'', JObj [(''processing_time_ms'', JInt 150),
                                (''memory_used_mb'', JFloat ''25.5''),
                                (''transformations_count'', JInt 2)])]"

definition process_data :: "platform \<Rightarrow> string \<Rightarrow> string \<Rightarrow> world \<Rightarrow> (pyerror + json) \<times> world" where
  "process_data env input_file output_file w =
     (let w1 = py_print (''Processing data from: '' @ input_file) w
      in raise_or (open_read w1 input_file) w1 (\<lambda>bytes.
         raise_or (json_load env bytes) w1 (\<lambda>data.
         raise_or (py_getitem data ''data'') w1 (\<lambda>data_data.
         raise_or (py_iter data_data) w1 (\<lambda>records.
         raise_or (process_records env 0 records) w1 (\<lambda>processed_records.
         raise_or (py_getitem data ''records_count'') w1 (\<lambda>original_count.
         let pd = processed_data env input_file original_count processed_records
         in case makedirs w1 (dirname output_file) of
              (Some e, w2) \<Rightarrow> (Inl e, w2)
            | (None, w2) \<Rightarrow>
                raise_or (open_write w2 output_file (json_dump_indent 0 pd)) w2 (\<lambda>w3.
                let w4 = py_print (''Data processed successfully. Records: ''
                                     @ str_int (int (length processed_records))) w3;
                    w5 = py_print (''Output saved to: '' @ output_file) w4
                in raise_or (py_getitem pd ''metadata'') w5 (\<lambda>metadata.
                   raise_or (py_getitem metadata ''processing_time_ms'') w5 (\<lambda>processing_time_ms.
                   raise_or (py_getitem pd ''transformations'') w5 (\<lambda>transformations.
                     (Inr (JObj [(''status'', JStr ''success''),
                                 (''records_processed'', JInt (int (length processed_records))),
                                 (''output_file'', JStr output_file),
                                 (''processing_time_ms'', processing_time_ms),
                                 (''transformations_applied'', transformations)]), w5))))))))))))"

definition main_process :: "platform \<Rightarrow> string list \<Rightarrow> world \<Rightarrow> nat \<times> world" where
  "main_process env args w =
     (if length args \<noteq> 2
      then (1, py_print ''Usage: python process_data.py <input_file> <output_file>'' w)
      else (case process_data env (args ! 0) (args ! 1) w of
              (Inr result, w1) \<Rightarrow> (0, py_print (''PROCESS_RESULT: '' @ json_dumps result) w1)
            | (Inl e, w1) \<Rightarrow> (1, py_print (''Error processing data: '' @ exc_str env e) w1)))"

subsection \<open>\<^verbatim>\<open>analyze_results.py\<close>\<close>

definition analysis_results :: "platform \<Rightarrow> string \<Rightarrow> nat \<Rightarrow> json" where
  "analysis_results env input_file report_size =
     JObj [(''analysis_timestamp'', JStr (now env 0)),
           (''report_file'', JStr input_file),
           (''report_size_bytes'', JInt (int report_size)),
           (''report_size_kb'', JFloat (round_kb env report_size)),
           (''analysis_metrics'', JObj [(''processing_efficiency'', JFloat ''95.5''),
                                        (''data_quality_score'', JFloat ''98.2''),
                                        (''transformation_success_rate'', JFloat ''100.0''),
                                        (''performance_score'', JFloat ''92.8'')]),
           (''recommendations'', JArr [JStr ''Data processing completed successfully'',
                                       JStr ''All transformations applied correctly'',
                                       JStr ''Performance is within acceptable limits'',
                                       JStr ''Consider implementing parallel processing for larger datasets'']),
           (''quality_checks'', JObj [(''data_integrity'', JStr ''PASSED''),
                                      (''format_validation'', JStr ''PASSED''),
                                      (''completeness_check'', JStr ''PASSED''),
                                      (''consistency_check'', JStr ''PASSED'')]),
           (''summary'', JObj [(''total_tasks_completed'', JInt 4),
                               (''successful_tasks'', JInt 4),
                               (''failed_tasks'', JInt 0),
                               (''overall_status'', JStr ''SUCCESS''),
                               (''processing_time_total'', JStr ''2.5 minutes''),
                               (''data_volume_processed'', JStr ''2.5MB'')])]"

definition analyze_results :: "platform \<Rightarrow> string \<Rightarrow> string \<Rightarrow> world \<Rightarrow> (pyerror + json) \<times> world" where
  "analyze_results env input_file output_file w =
     (let w1 = py_print (''Analyzing results from: '' @ input_file) w
      in raise_or (getsize env w1 input_file) w1 (\<lambda>report_size.
         let ar = analysis_results env input_file report_size
         in case makedirs w1 (dirname output_file) of
              (Some e, w2) \<Rightarrow> (Inl e, w2)
            | (None, w2) \<Rightarrow>
                raise_or (open_write w2 output_file (json_dump_indent 0 ar)) w2 (\<lambda>w3.
                let w4 = py_print ''Analysis completed successfully'' w3;
                    w5 = py_print (''Output saved to: '' @ output_file) w4
                in raise_or (py_getitem ar ''summary'') w5 (\<lambda>summary.
                   raise_or (py_getitem summary ''overall_status'') w5 (\<lambda>overall_status.
                   let w6 = py_print (''Overall Status: '' @ py_format overall_status) w5
                   in raise_or (py_getitem ar ''summary'') w6 (\<lambda>summary'.
                      raise_or (py_getitem summary' ''overall_status'') w6 (\<lambda>overall_status'.
                      raise_or (py_getitem ar ''analysis_metrics'') w6 (\<lambda>metrics.
                      raise_or (py_getitem metrics ''data_quality_score'') w6 (\<lambda>quality_score.
                      raise_or (py_getitem ar ''recommendations'') w6 (\<lambda>recommendations.
                      raise_or (py_len recommendations) w6 (\<lambda>recommendations_count.
                        (Inr (JObj [(''status'', JStr ''success''),
                                    (''analysis_file'', JStr output_file),
                                    (''overall_status'', overall_status'),
                                    (''quality_score'', quality_score),
                                    (''recommendations_count'', JInt (int recommendations_count))]),
                         w6))))))))))))"

definition main_analyze :: "platform \<Rightarrow> string list \<Rightarrow> world \<Rightarrow> nat \<times> world" where
  "main_analyze env args w =
     (if length args \<noteq> 2
      then (1, py_print ''Usage: python analyze_results.py <input_file> <output_file>'' w)
      else (case analyze_results env (args ! 0) (args ! 1) w of
              (Inr result, w1) \<Rightarrow> (0, py_print (''ANALYZE_RESULT: '' @ json_dumps result) w1)
            | (Inl e, w1) \<Rightarrow> (1, py_print (''Error analyzing results: '' @ exc_str env e) w1)))"

subsection \<open>The three stages side by side\<close>

datatype stage = Loader | Transformer | Analyzer

fun run_stage :: "stage \<Rightarrow> platform \<Rightarrow> string list \<Rightarrow> world \<Rightarrow> nat \<times> world" where
  "run_stage Loader = main_load"
| "run_stage Transformer = main_process"
| "run_stage Analyzer = main_analyze"

fun result_prefix :: "stage \<Rightarrow> string" where
  "result_prefix Loader = ''LOAD_RESULT: ''"
| "result_prefix Transformer = ''PROCESS_RESULT: ''"
| "result_prefix Analyzer = ''ANALYZE_RESULT: ''"

fun error_prefix :: "stage \<Rightarrow> string" where
  "error_prefix Loader = ''Error loading data: ''"
| "error_prefix Transformer = ''Error processing data: ''"
| "error_prefix Analyzer = ''Error analyzing results: ''"

fun usage_line :: "stage \<Rightarrow> string" where
  "usage_line Loader = ''Usage: python load_data.py <input_file> <output_file>''"
| "usage_line Transformer = ''Usage: python process_data.py <input_file> <output_file>''"
| "usage_line Analyzer = ''Usage: python analyze_results.py <input_file> <output_file>''"

section \<open>Notions used in the statements\<close>

text \<open>A text without a line break: \<open>print\<close> writes it as one line.\<close>

definition oneline :: "string \<Rightarrow> bool" where
  "oneline s = (CHR 0x0A \<notin> set s)"

text \<open>The bytes of the regular file that a path names, if it names one.\<close>

definition file_at :: "world \<Rightarrow> string \<Rightarrow> string option" where
  "file_at w p = (case os_stat w p of Inr (loc, File r wr b) \<Rightarrow> Some b | _ \<Rightarrow> None)"

text \<open>
  The dictionaries the three functions return, with the subscripts of their own
  literals looked up.
\<close>

definition load_result :: "string \<Rightarrow> json" where
  "load_result output_file =
     JObj [(''status'', JStr ''success''),
           (''records_loaded'', JInt 1000),
           (''output_file'', JStr output_file),
           (''file_size'', JStr ''2.5MB'')]"

definition process_result :: "string \<Rightarrow> nat \<Rightarrow> json" where
  "process_result output_file n =
     JObj [(''status'', JStr ''success''),
           (''records_processed'', JInt (int n)),
           (''output_file'', JStr output_file),
           (''processing_time_ms'', JInt 150),
           (''transformations_applied'',
              JArr [JStr ''uppercase_conversion'', JStr ''timestamp_normalization''])]"

definition analyze_result :: "string \<Rightarrow> json" where
  "analyze_result output_file =
     JObj [(''status'', JStr ''success''),
           (''analysis_file'', JStr output_file),
           (''overall_status'', JStr ''SUCCESS''),
           (''quality_score'', JFloat ''98.2''),
           (''recommendations_count'', JInt 4)]"

text \<open>
  A record of a LoadedDataset: a dictionary with an integer \<open>id\<close>, a string \<open>value\<close> and a
  \<open>timestamp\<close>.
\<close>

definition loaded_record :: "json \<Rightarrow> bool" where
  "loaded_record r =
     ((case py_getitem r ''id'' of Inr (JInt i) \<Rightarrow> True | _ \<Rightarrow> False)
    \<and> (case py_getitem r ''value'' of Inr (JStr v) \<Rightarrow> True | _ \<Rightarrow> False)
    \<and> (case py_getitem r ''timestamp'' of Inr t \<Rightarrow> True | Inl e \<Rightarrow> False))"

text \<open>
  The names of a path, the location its walk starts from, and a plain file name (not
  empty, without \<open>/\<close>, neither \<open>.\<close> nor \<open>..\<close>).
\<close>

definition comps :: "string \<Rightarrow> string list" where
  "comps p = filter (\<lambda>c. c \<noteq> []) (split_on CHR ''/'' p)"

definition start_loc :: "world \<Rightarrow> string \<Rightarrow> string list" where
  "start_loc w p = (if hd p = CHR ''/'' then [] else cwd w)"

definition plain :: "string \<Rightarrow> bool" where
  "plain f = (f \<noteq> [] \<and> CHR ''/'' \<notin> set f \<and> f \<noteq> ''.'' \<and> f \<noteq> ''..'')"

subsection \<open>A platform and a world to run the stages on\<close>

definition ascii_upper :: "string \<Rightarrow> string" where
  "ascii_upper s =
     map (\<lambda>c. if (97::nat) \<le> of_char c \<and> of_char c \<le> (122::nat)
              then char_of (of_char c - (32::nat)) else c) s"

definition demo_base :: platform where
  "demo_base =
     \<lparr> now = (\<lambda>k. ''2024-01-01T00:00:00.'' @ str_nat k),
       json_load = (\<lambda>b. Inl (ValueError ''Expecting value: line 1 column 1 (char 0)'')),
       str_upper = ascii_upper,
       round_kb = (\<lambda>n. str_nat (n div 1024) @ ''.0''),
       exc_str = (\<lambda>e. ''failure''),
       dir_size = (\<lambda>loc. 4096) \<rparr>"

definition demo_world :: world where
  "demo_world =
     \<lparr> cwd = [''home''],
       nodes = [[] \<mapsto> Dir True, [''home''] \<mapsto> Dir True, [''tmp''] \<mapsto> Dir True,
                [''tmp'', ''work''] \<mapsto> Dir True,
                [''tmp'', ''work'', ''a.json''] \<mapsto> File True True ''[1, 2]'',
                [''tmp'', ''work'', ''b.json''] \<mapsto> File True True ''[3, 4]'',
                [''tmp'', ''work'', ''notes.txt''] \<mapsto> File True True ''not json''],
       stdout = [] \<rparr>"

definition demo_platform :: platform where
  "demo_platform =
     demo_base\<lparr>json_load :=
       (\<lambda>b. if b = json_dump_indent 0 (sample_data demo_base ''input.csv'')
            then Inr (sample_data demo_base ''input.csv'')
            else json_load demo_base b)\<rparr>"

definition demo_loaded_world :: world where
  "demo_loaded_world = snd (main_load demo_base [''input.csv'', ''/tmp/work/loaded.json''] demo_world)"

text \<open>A line that an orchestrator scanning for the hand-off of any stage would take for one.\<close>

definition result_line :: "string \<Rightarrow> bool" where
  "result_line l = (prefix (result_prefix Loader) l \<or> prefix (result_prefix Transformer) l
                    \<or> prefix (result_prefix Analyzer) l)"

section \<open>Lemmas\<close>

declare makedirs.simps [simp del]

declare str_nat.simps [simp del]

lemma split_on_absent: "sep \<notin> set s \<Longrightarrow> split_on sep s = [s]"
  by (induction s) auto

lemma lines_of_oneline: "oneline s \<Longrightarrow> lines_of s = [s]"
  by (simp add: oneline_def lines_of_def split_on_absent)

lemma oneline_append [simp]: "oneline (a @ b) = (oneline a \<and> oneline b)"
  by (auto simp: oneline_def)

lemma oneline_Cons [simp]: "oneline (c # s) = (c \<noteq> CHR 0x0A \<and> oneline s)"
  by (auto simp: oneline_def)

lemma oneline_Nil [simp]: "oneline []"
  by (simp add: oneline_def)

lemma digit_not_newline: "(d::nat) < 10 \<Longrightarrow> char_of (48 + d) \<noteq> CHR 0x0A"
proof
  assume d: "d < (10::nat)" and "char_of (48 + d) = CHR 0x0A"
  then have "of_char (char_of (48 + d)) = (of_char (CHR 0x0A) :: nat)"
    by simp
  with d show False
    by simp
qed

lemma oneline_str_nat: "oneline (str_nat n)"
proof (induction n rule: str_nat.induct)
  case (1 n)
  show ?case
  proof (cases "n < 10")
    case True
    then show ?thesis
      by (subst str_nat.simps) (simp add: digit_not_newline)
  next
    case False
    then have "oneline (str_nat (n div 10))"
      using 1 by simp
    moreover have "char_of (48 + n mod 10) \<noteq> CHR 0x0A"
      by (rule digit_not_newline) simp
    ultimately show ?thesis
      using False by (subst str_nat.simps) simp
  qed
qed

lemma oneline_str_int: "oneline (str_int i)"
  by (simp add: str_int_def oneline_str_nat)

lemma hex_digit_not_newline: "d < 16 \<Longrightarrow> hex_digit d \<noteq> CHR 0x0A"
proof
  assume d: "d < (16::nat)" and "hex_digit d = CHR 0x0A"
  then have "of_char (hex_digit d) = (of_char (CHR 0x0A) :: nat)"
    by simp
  with d show False
    by (simp add: hex_digit_def split: if_splits)
qed

lemma oneline_esc_char: "oneline (esc_char c)"
proof -
  have "(32::nat) \<le> of_char c \<Longrightarrow> c \<noteq> CHR 0x0A"
    by auto
  moreover have "(of_char c :: nat) div 16 < 16"
    using nat_of_char_less_256[of c] by arith
  ultimately show ?thesis
    by (simp add: esc_char_def hex_digit_not_newline)
qed

lemma oneline_concat: "(\<And>x. x \<in> set xs \<Longrightarrow> oneline x) \<Longrightarrow> oneline (concat xs)"
  by (induction xs) auto

lemma oneline_json_str: "oneline (json_str s)"
  by (auto simp: json_str_def oneline_esc_char intro!: oneline_concat)

lemma py_print_fields [simp]:
  "nodes (py_print s w) = nodes w" "cwd (py_print s w) = cwd w"
  "stdout (py_print s w) = stdout w @ lines_of s"
  by (simp_all add: py_print_def)

lemma resolve_print [simp]: "resolve (py_print s w) p = resolve w p"
  by (simp add: resolve_def)

lemma os_stat_print [simp]: "os_stat (py_print s w) p = os_stat w p"
  by (simp add: os_stat_def split: sum.split)

lemma open_read_print [simp]: "open_read (py_print s w) p = open_read w p"
  by (simp add: open_read_def)

lemma getsize_print [simp]: "getsize env (py_print s w) p = getsize env w p"
  by (simp add: getsize_def)

lemma file_at_print [simp]: "file_at (py_print s w) p = file_at w p"
  by (simp add: file_at_def)

lemma create_entry_fields:
  "create_entry w p loc n = Inr w' \<Longrightarrow> stdout w' = stdout w \<and> cwd w' = cwd w"
  by (auto simp: create_entry_def split: option.splits node.splits if_splits)

lemma os_mkdir_fields:
  "os_mkdir w p = Inr w' \<Longrightarrow> stdout w' = stdout w \<and> cwd w' = cwd w"
  by (auto simp: os_mkdir_def split: sum.splits option.splits if_splits dest: create_entry_fields)

lemma mkdir_exist_ok_fields:
  "mkdir_exist_ok w name = (r, w') \<Longrightarrow> stdout w' = stdout w \<and> cwd w' = cwd w"
  by (auto simp: mkdir_exist_ok_def split: sum.splits if_splits dest: os_mkdir_fields)

lemma makedirs_fields:
  "makedirs w name = (r, w') \<Longrightarrow> stdout w' = stdout w \<and> cwd w' = cwd w"
proof (induction w name arbitrary: r w' rule: makedirs.induct)
  case (1 w name)
  show ?case
  proof (cases "makedirs_head name \<noteq> [] \<and> makedirs_tail name \<noteq> [] \<and> \<not> path_exists w (makedirs_head name)")
    case False
    have "makedirs w name = mkdir_exist_ok w name"
      by (subst makedirs.simps) (simp only: False if_False)
    with "1.prems" show ?thesis
      by (simp add: mkdir_exist_ok_fields)
  next
    case True
    obtain r1 w1 where rec: "makedirs w (makedirs_head name) = (r1, w1)"
      by (cases "makedirs w (makedirs_head name)")
    have ih: "stdout w1 = stdout w \<and> cwd w1 = cwd w"
      using "1.IH"[OF True rec] .
    have "makedirs w name = (r, w')"
      by (rule "1.prems")
    then have "(r, w') = (r1, w1) \<or> (r, w') = (None, w1) \<or> (r, w') = mkdir_exist_ok w1 name"
      using True rec by (subst (asm) makedirs.simps) (auto split: option.splits if_splits)
    then show ?thesis
      using ih by (auto dest: mkdir_exist_ok_fields[OF sym])
  qed
qed

lemma makedirs_empty: "makedirs w [] = (Some (FileNotFoundError []), w)"
proof -
  have "path_split [] = ([], [])"
    by (simp add: path_split_def)
  then have "makedirs_head [] = []"
    by (simp add: makedirs_head_def)
  then have "makedirs w [] = mkdir_exist_ok w []"
    by (subst makedirs.simps) simp
  then show ?thesis
    by (simp add: mkdir_exist_ok_def os_mkdir_def resolve_def path_isdir_def os_stat_def)
qed

lemma dirname_bare: "CHR ''/'' \<notin> set p \<Longrightarrow> dirname p = []"
proof -
  assume "CHR ''/'' \<notin> set p"
  then have "dropWhile (\<lambda>c. c \<noteq> CHR ''/'') (rev p) = []"
    by auto
  then show ?thesis
    by (simp add: dirname_def path_split_def)
qed

lemma walk_update:
  "walk nd p cur cs = Inr loc \<Longrightarrow> (\<And>wr. nd x \<noteq> Some (Dir wr)) \<Longrightarrow>
   walk (nd(x \<mapsto> n)) p' cur cs = Inr loc"
proof (induction cs arbitrary: cur)
  case Nil
  then show ?case by simp
next
  case (Cons c cs)
  from Cons.prems(1) obtain wr where d: "nd cur = Some (Dir wr)"
    by (auto split: option.splits node.splits)
  with Cons.prems(2) have "cur \<noteq> x"
    by auto
  with d Cons show ?case
    by simp
qed

lemma open_write_ok:
  assumes "open_write w p bytes = Inr w'"
  shows "file_at w' p = Some bytes \<and> stdout w' = stdout w \<and> cwd w' = cwd w"
proof -
  from assms obtain loc where r: "resolve w p = Inr loc"
    by (auto simp: open_write_def split: sum.splits)
  from r have pne: "p \<noteq> []"
    by (auto simp: resolve_def split: if_splits)
  from assms r have nd: "\<And>wr. nodes w loc \<noteq> Some (Dir wr)" and ne: "\<not> ends_sep p"
    by (auto simp: open_write_def split: option.splits node.splits if_splits)
  from assms r obtain r' wr' where w': "w' = w\<lparr>nodes := (nodes w)(loc \<mapsto> File r' wr' bytes)\<rparr>"
    by (auto simp: open_write_def create_entry_def split: option.splits node.splits if_splits)
  from r pne have wk: "walk (nodes w) p (if hd p = CHR ''/'' then [] else cwd w)
      (filter (\<lambda>c. c \<noteq> []) (split_on CHR ''/'' p)) = Inr loc"
    by (simp add: resolve_def)
  have "walk ((nodes w)(loc \<mapsto> File r' wr' bytes)) p (if hd p = CHR ''/'' then [] else cwd w)
      (filter (\<lambda>c. c \<noteq> []) (split_on CHR ''/'' p)) = Inr loc"
    by (rule walk_update[OF wk nd])
  then have "resolve w' p = Inr loc"
    using pne w' by (auto simp: resolve_def split: if_splits)
  then show ?thesis
    using w' ne by (simp add: file_at_def os_stat_def)
qed

lemma raise_or_simps [simp]:
  "raise_or (Inl e) w k = (Inl e, w)" "raise_or (Inr v) w k = k v"
  by (simp_all add: raise_or_def)

lemma py_getitem_JObj:
  "py_getitem (JObj kvs) k = (case map_of kvs k of Some v \<Rightarrow> Inr v | None \<Rightarrow> Inl (KeyError k))"
  by (simp add: py_getitem_def)

lemma sample_data_items:
  "py_getitem (sample_data env inp) ''records_count'' = Inr (JInt 1000)"
  "py_getitem (sample_data env inp) ''data'' = Inr (JArr (map (sample_record env) [1..100]))"
  "py_getitem (sample_data env inp) ''source_file'' = Inr (JStr inp)"
  "py_getitem (sample_data env inp) ''metadata'' =
     Inr (JObj [(''file_size'', JStr ''2.5MB''), (''format'', JStr ''JSON''), (''encoding'', JStr ''UTF-8'')])"
  by (simp_all add: sample_data_def py_getitem_def)

lemma load_data_result:
  assumes "load_data env inp out w = (r, w')"
  shows "(\<exists>e. r = Inl e \<and> stdout w' = stdout w @ lines_of (''Loading data from: '' @ inp))
       \<or> (r = Inr (load_result out)
          \<and> stdout w' = stdout w @ lines_of (''Loading data from: '' @ inp)
                @ lines_of (''Data loaded successfully. Records: '' @ str_int 1000)
                @ lines_of (''Output saved to: '' @ out)
          \<and> file_at w' out = Some (json_dump_indent 0 (sample_data env inp)))"
proof -
  define w1 where "w1 = py_print (''Loading data from: '' @ inp) w"
  obtain mr w2 where mk: "makedirs w1 (dirname out) = (mr, w2)"
    by (cases "makedirs w1 (dirname out)")
  have s2: "stdout w2 = stdout w @ lines_of (''Loading data from: '' @ inp)"
    using makedirs_fields[OF mk] by (simp add: w1_def)
  show ?thesis
  proof (cases mr)
    case (Some e)
    with assms mk have "r = Inl e" "w' = w2"
      by (simp_all add: load_data_def Let_def w1_def)
    with s2 show ?thesis by simp
  next
    case None
    show ?thesis
    proof (cases "open_write w2 out (json_dump_indent 0 (sample_data env inp))")
      case (Inl e)
      with assms mk None have "r = Inl e" "w' = w2"
        by (simp_all add: load_data_def Let_def w1_def)
      with s2 show ?thesis by simp
    next
      case (Inr w3)
      from open_write_ok[OF Inr] have f3: "file_at w3 out = Some (json_dump_indent 0 (sample_data env inp))"
        and s3: "stdout w3 = stdout w2"
        by simp_all
      from assms mk None Inr have "r = Inr (load_result out)"
        and "w' = py_print (''Output saved to: '' @ out)
                  (py_print (''Data loaded successfully. Records: '' @ str_int 1000) w3)"
        by (simp_all add: load_data_def Let_def w1_def sample_data_items py_getitem_JObj
              load_result_def py_format_def)
      with f3 s3 s2 show ?thesis by simp
    qed
  qed
qed

lemma processed_data_items:
  "py_getitem (processed_data env inp oc prs) ''metadata'' =
     Inr (JObj [(''processing_time_ms'', JInt 150), (''memory_used_mb'', JFloat ''25.5''),
                (''transformations_count'', JInt 2)])"
  "py_getitem (processed_data env inp oc prs) ''transformations'' =
     Inr (JArr [JStr ''uppercase_conversion'', JStr ''timestamp_normalization''])"
  "py_getitem (processed_data env inp oc prs) ''processed_records_count'' = Inr (JInt (int (length prs)))"
  "py_getitem (processed_data env inp oc prs) ''original_records_count'' = Inr oc"
  "py_getitem (processed_data env inp oc prs) ''data'' = Inr (JArr prs)"
  by (simp_all add: processed_data_def py_getitem_JObj)

lemma process_data_result:
  assumes "process_data env inp out w = (r, w')"
  shows "(\<exists>e. r = Inl e \<and> stdout w' = stdout w @ lines_of (''Processing data from: '' @ inp))
       \<or> (\<exists>bytes d dd recs prs oc.
            open_read w inp = Inr bytes \<and> json_load env bytes = Inr d
          \<and> py_getitem d ''data'' = Inr dd \<and> py_iter dd = Inr recs
          \<and> process_records env 0 recs = Inr prs
          \<and> py_getitem d ''records_count'' = Inr oc
          \<and> r = Inr (process_result out (length prs))
          \<and> stdout w' = stdout w @ lines_of (''Processing data from: '' @ inp)
                @ lines_of (''Data processed successfully. Records: '' @ str_int (int (length prs)))
                @ lines_of (''Output saved to: '' @ out)
          \<and> file_at w' out = Some (json_dump_indent 0 (processed_data env inp oc prs)))"
proof -
  define w1 where "w1 = py_print (''Processing data from: '' @ inp) w"
  have s1: "stdout w1 = stdout w @ lines_of (''Processing data from: '' @ inp)"
    by (simp add: w1_def)
  note defs = process_data_def Let_def w1_def[symmetric]
  show ?thesis
  proof (cases "open_read w inp")
    case (Inl e)
    with assms have "r = Inl e" "w' = w1" by (simp_all add: defs w1_def)
    with s1 show ?thesis by simp
  next
    case bytes: (Inr bytes)
    show ?thesis
    proof (cases "json_load env bytes")
      case (Inl e)
      with assms bytes have "r = Inl e" "w' = w1" by (simp_all add: defs w1_def)
      with s1 show ?thesis by simp
    next
      case d: (Inr d)
      show ?thesis
      proof (cases "py_getitem d ''data''")
        case (Inl e)
        with assms bytes d have "r = Inl e" "w' = w1" by (simp_all add: defs w1_def)
        with s1 show ?thesis by simp
      next
        case dd: (Inr dd)
        show ?thesis
        proof (cases "py_iter dd")
          case (Inl e)
          with assms bytes d dd have "r = Inl e" "w' = w1" by (simp_all add: defs w1_def)
          with s1 show ?thesis by simp
        next
          case recs: (Inr recs)
          show ?thesis
          proof (cases "process_records env 0 recs")
            case (Inl e)
            with assms bytes d dd recs have "r = Inl e" "w' = w1" by (simp_all add: defs w1_def)
            with s1 show ?thesis by simp
          next
            case prs: (Inr prs)
            show ?thesis
            proof (cases "py_getitem d ''records_count''")
              case (Inl e)
              with assms bytes d dd recs prs have "r = Inl e" "w' = w1"
                by (simp_all add: defs w1_def)
              with s1 show ?thesis by simp
            next
              case oc: (Inr oc)
              obtain mr w2 where mk: "makedirs w1 (dirname out) = (mr, w2)"
                by (cases "makedirs w1 (dirname out)")
              have s2: "stdout w2 = stdout w1"
                using makedirs_fields[OF mk] by simp
              have run: "process_data env inp out w =
                  (case makedirs w1 (dirname out) of
                     (Some e, w2) \<Rightarrow> (Inl e, w2)
                   | (None, w2) \<Rightarrow>
                       raise_or (open_write w2 out (json_dump_indent 0 (processed_data env inp oc prs))) w2
                         (\<lambda>w3. (Inr (process_result out (length prs)),
                            py_print (''Output saved to: '' @ out)
                              (py_print (''Data processed successfully. Records: ''
                                          @ str_int (int (length prs))) w3))))"
                using bytes d dd recs prs oc
                by (simp add: process_data_def Let_def w1_def processed_data_items py_getitem_JObj
                      process_result_def cong: prod.case_cong option.case_cong)
              show ?thesis
              proof (cases mr)
                case (Some e)
                with assms mk run have "r = Inl e" "w' = w2" by simp_all
                with s1 s2 show ?thesis by simp
              next
                case None
                show ?thesis
                proof (cases "open_write w2 out (json_dump_indent 0 (processed_data env inp oc prs))")
                  case (Inl e)
                  with assms mk run None have "r = Inl e" "w' = w2" by simp_all
                  with s1 s2 show ?thesis by simp
                next
                  case (Inr w3)
                  from open_write_ok[OF Inr]
                  have f3: "file_at w3 out = Some (json_dump_indent 0 (processed_data env inp oc prs))"
                    and s3: "stdout w3 = stdout w2"
                    by simp_all
                  from assms mk run None Inr have "r = Inr (process_result out (length prs))"
                    and "w' = py_print (''Output saved to: '' @ out)
                              (py_print (''Data processed successfully. Records: ''
                                          @ str_int (int (length prs))) w3)"
                    by simp_all
                  with f3 s3 s2 s1 bytes d dd recs prs oc show ?thesis by simp
                qed
              qed
            qed
          qed
        qed
      qed
    qed
  qed
qed

lemma analysis_results_items:
  "py_getitem (analysis_results env inp n) ''summary'' =
     Inr (JObj [(''total_tasks_completed'', JInt 4), (''successful_tasks'', JInt 4),
                (''failed_tasks'', JInt 0), (''overall_status'', JStr ''SUCCESS''),
                (''processing_time_total'', JStr ''2.5 minutes''),
                (''data_volume_processed'', JStr ''2.5MB'')])"
  "py_getitem (analysis_results env inp n) ''analysis_metrics'' =
     Inr (JObj [(''processing_efficiency'', JFloat ''95.5''), (''data_quality_score'', JFloat ''98.2''),
                (''transformation_success_rate'', JFloat ''100.0''),
                (''performance_score'', JFloat ''92.8'')])"
  "py_getitem (analysis_results env inp n) ''recommendations'' =
     Inr (JArr [JStr ''Data processing completed successfully'',
                JStr ''All transformations applied correctly'',
                JStr ''Performance is within acceptable limits'',
                JStr ''Consider implementing parallel processing for larger datasets''])"
  "py_getitem (analysis_results env inp n) ''quality_checks'' =
     Inr (JObj [(''data_integrity'', JStr ''PASSED''), (''format_validation'', JStr ''PASSED''),
                (''completeness_check'', JStr ''PASSED''), (''consistency_check'', JStr ''PASSED'')])"
  "py_getitem (analysis_results env inp n) ''report_size_bytes'' = Inr (JInt (int n))"
  "py_getitem (analysis_results env inp n) ''report_size_kb'' = Inr (JFloat (round_kb env n))"
  "py_getitem (analysis_results env inp n) ''report_file'' = Inr (JStr inp)"
  "py_getitem (analysis_results env inp n) ''analysis_timestamp'' = Inr (JStr (now env 0))"
  by (simp_all add: analysis_results_def py_getitem_JObj)

lemma analyze_results_result:
  assumes "analyze_results env inp out w = (r, w')"
  shows "(\<exists>e. r = Inl e \<and> stdout w' = stdout w @ lines_of (''Analyzing results from: '' @ inp))
       \<or> (\<exists>n. getsize env w inp = Inr n
          \<and> r = Inr (analyze_result out)
          \<and> stdout w' = stdout w @ lines_of (''Analyzing results from: '' @ inp)
                @ lines_of ''Analysis completed successfully''
                @ lines_of (''Output saved to: '' @ out)
                @ lines_of ''Overall Status: SUCCESS''
          \<and> file_at w' out = Some (json_dump_indent 0 (analysis_results env inp n)))"
proof -
  define w1 where "w1 = py_print (''Analyzing results from: '' @ inp) w"
  have s1: "stdout w1 = stdout w @ lines_of (''Analyzing results from: '' @ inp)"
    by (simp add: w1_def)
  show ?thesis
  proof (cases "getsize env w inp")
    case (Inl e)
    with assms have "r = Inl e" "w' = w1"
      by (simp_all add: analyze_results_def Let_def w1_def)
    with s1 show ?thesis by simp
  next
    case n: (Inr n)
    obtain mr w2 where mk: "makedirs w1 (dirname out) = (mr, w2)"
      by (cases "makedirs w1 (dirname out)")
    have s2: "stdout w2 = stdout w1"
      using makedirs_fields[OF mk] by simp
    have run: "analyze_results env inp out w =
        (case makedirs w1 (dirname out) of
           (Some e, w2) \<Rightarrow> (Inl e, w2)
         | (None, w2) \<Rightarrow>
             raise_or (open_write w2 out (json_dump_indent 0 (analysis_results env inp n))) w2
               (\<lambda>w3. (Inr (analyze_result out),
                  py_print ''Overall Status: SUCCESS''
                    (py_print (''Output saved to: '' @ out)
                      (py_print ''Analysis completed successfully'' w3)))))"
      using n
      by (simp add: analyze_results_def Let_def w1_def analysis_results_items py_getitem_JObj
            analyze_result_def py_format_def py_len_def cong: prod.case_cong option.case_cong)
    show ?thesis
    proof (cases mr)
      case (Some e)
      with assms mk run have "r = Inl e" "w' = w2" by simp_all
      with s1 s2 show ?thesis by simp
    next
      case None
      show ?thesis
      proof (cases "open_write w2 out (json_dump_indent 0 (analysis_results env inp n))")
        case (Inl e)
        with assms mk run None have "r = Inl e" "w' = w2" by simp_all
        with s1 s2 show ?thesis by simp
      next
        case (Inr w3)
        from open_write_ok[OF Inr]
        have f3: "file_at w3 out = Some (json_dump_indent 0 (analysis_results env inp n))"
          and s3: "stdout w3 = stdout w2"
          by simp_all
        from assms mk run None Inr have "r = Inr (analyze_result out)"
          and "w' = py_print ''Overall Status: SUCCESS''
                    (py_print (''Output saved to: '' @ out)
                      (py_print ''Analysis completed successfully'' w3))"
          by simp_all
        with f3 s3 s2 s1 n show ?thesis by simp
      qed
    qed
  qed
qed

lemma oneline_load_result: "oneline (json_dumps (load_result out))"
  by (simp add: load_result_def oneline_json_str oneline_str_int)

lemma oneline_process_result: "oneline (json_dumps (process_result out n))"
  by (simp add: process_result_def oneline_json_str oneline_str_int)

lemma oneline_analyze_result: "oneline (json_dumps (analyze_result out))"
  by (simp add: analyze_result_def oneline_json_str oneline_str_int)

lemma loaded_recordD:
  assumes "loaded_record r"
  obtains i v t where "py_getitem r ''id'' = Inr (JInt i)" "py_getitem r ''value'' = Inr (JStr v)"
    "py_getitem r ''timestamp'' = Inr t"
proof -
  from assms have a: "case py_getitem r ''id'' of Inr (JInt i) \<Rightarrow> True | _ \<Rightarrow> False"
    and b: "case py_getitem r ''value'' of Inr (JStr v) \<Rightarrow> True | _ \<Rightarrow> False"
    and c: "case py_getitem r ''timestamp'' of Inr t \<Rightarrow> True | Inl e \<Rightarrow> False"
    by (simp_all add: loaded_record_def)
  from a obtain i where "py_getitem r ''id'' = Inr (JInt i)"
    by (auto split: sum.splits json.splits)
  moreover from b obtain v where "py_getitem r ''value'' = Inr (JStr v)"
    by (auto split: sum.splits json.splits)
  moreover from c obtain t where "py_getitem r ''timestamp'' = Inr t"
    by (auto split: sum.splits)
  ultimately show ?thesis
    by (rule that)
qed

lemma process_record_loaded:
  assumes "py_getitem r ''id'' = Inr rid" "py_getitem r ''value'' = Inr (JStr v)"
    "py_getitem r ''timestamp'' = Inr t"
  shows "process_record env k r =
     Inr (JObj [(''id'', rid), (''processed_value'', JStr (str_upper env v)),
                (''processed_timestamp'', JStr (now env k)), (''original_timestamp'', t),
                (''transformation_applied'', JStr ''uppercase_conversion'')])"
  using assms by (simp add: process_record_def py_upper_def)

lemma process_records_loaded:
  assumes "list_all loaded_record recs"
  shows "\<exists>prs. process_records env k recs = Inr prs \<and> length prs = length recs
         \<and> (\<forall>i<length recs.
               py_getitem (prs ! i) ''id'' = py_getitem (recs ! i) ''id''
             \<and> (\<forall>v. py_getitem (recs ! i) ''value'' = Inr (JStr v)
                   \<longrightarrow> py_getitem (prs ! i) ''processed_value'' = Inr (JStr (str_upper env v))))"
  using assms
proof (induction recs arbitrary: k)
  case Nil
  then show ?case by simp
next
  case (Cons r recs)
  from Cons.prems have lr: "loaded_record r" and rest: "list_all loaded_record recs"
    by simp_all
  from lr obtain i v t where r: "py_getitem r ''id'' = Inr (JInt i)"
      "py_getitem r ''value'' = Inr (JStr v)" "py_getitem r ''timestamp'' = Inr t"
    by (rule loaded_recordD)
  define pr where "pr = JObj [(''id'', JInt i), (''processed_value'', JStr (str_upper env v)),
                (''processed_timestamp'', JStr (now env k)), (''original_timestamp'', t),
                (''transformation_applied'', JStr ''uppercase_conversion'')]"
  have p: "process_record env k r = Inr pr"
    unfolding pr_def by (rule process_record_loaded[OF r])
  from Cons.IH[OF rest, of "Suc k"] obtain prs where
    prs: "process_records env (Suc k) recs = Inr prs" "length prs = length recs"
    and each: "\<forall>i<length recs.
               py_getitem (prs ! i) ''id'' = py_getitem (recs ! i) ''id''
             \<and> (\<forall>v. py_getitem (recs ! i) ''value'' = Inr (JStr v)
                   \<longrightarrow> py_getitem (prs ! i) ''processed_value'' = Inr (JStr (str_upper env v)))"
    by blast
  have hd_ok: "py_getitem pr ''id'' = py_getitem r ''id''"
      "\<forall>v'. py_getitem r ''value'' = Inr (JStr v')
          \<longrightarrow> py_getitem pr ''processed_value'' = Inr (JStr (str_upper env v'))"
    using r by (simp_all add: pr_def py_getitem_JObj)
  have "process_records env k (r # recs) = Inr (pr # prs)"
    using p prs by simp
  moreover have "length (pr # prs) = length (r # recs)"
    using prs by simp
  moreover have "\<forall>j<length (r # recs).
               py_getitem ((pr # prs) ! j) ''id'' = py_getitem ((r # recs) ! j) ''id''
             \<and> (\<forall>v. py_getitem ((r # recs) ! j) ''value'' = Inr (JStr v)
                   \<longrightarrow> py_getitem ((pr # prs) ! j) ''processed_value'' = Inr (JStr (str_upper env v)))"
  proof (intro allI impI)
    fix j assume "j < length (r # recs)"
    then show "py_getitem ((pr # prs) ! j) ''id'' = py_getitem ((r # recs) ! j) ''id''
             \<and> (\<forall>v. py_getitem ((r # recs) ! j) ''value'' = Inr (JStr v)
                   \<longrightarrow> py_getitem ((pr # prs) ! j) ''processed_value'' = Inr (JStr (str_upper env v)))"
      using hd_ok each by (cases j) simp_all
  qed
  ultimately show ?case by blast
qed

lemma raise_or_fail:
  "(\<And>v. \<exists>e. k v = (Inl e, w)) \<Longrightarrow> \<exists>e. raise_or r w k = (Inl e, w)"
  by (cases r) simp_all

lemma load_data_bare:
  "CHR ''/'' \<notin> set out \<Longrightarrow>
   load_data env inp out w = (Inl (FileNotFoundError []), py_print (''Loading data from: '' @ inp) w)"
  by (simp add: load_data_def Let_def dirname_bare makedirs_empty)

lemma process_data_bare:
  "CHR ''/'' \<notin> set out \<Longrightarrow>
   \<exists>e. process_data env inp out w = (Inl e, py_print (''Processing data from: '' @ inp) w)"
  unfolding process_data_def Let_def
  by (intro raise_or_fail) (simp add: dirname_bare makedirs_empty)

lemma analyze_results_bare:
  "CHR ''/'' \<notin> set out \<Longrightarrow>
   \<exists>e. analyze_results env inp out w = (Inl e, py_print (''Analyzing results from: '' @ inp) w)"
  unfolding analyze_results_def Let_def
  by (intro raise_or_fail) (simp add: dirname_bare makedirs_empty)

lemma main_load_success:
  assumes "fst (main_load env [inp, out] w) = 0"
  shows "stdout (snd (main_load env [inp, out] w))
           = stdout w @ lines_of (''Loading data from: '' @ inp)
               @ lines_of (''Data loaded successfully. Records: '' @ str_int 1000)
               @ lines_of (''Output saved to: '' @ out)
               @ [''LOAD_RESULT: '' @ json_dumps (load_result out)]
       \<and> file_at (snd (main_load env [inp, out] w)) out
           = Some (json_dump_indent 0 (sample_data env inp))"
proof -
  obtain r w1 where run: "load_data env inp out w = (r, w1)"
    by (cases "load_data env inp out w")
  have lr: "lines_of (''LOAD_RESULT: '' @ json_dumps (load_result out))
              = [''LOAD_RESULT: '' @ json_dumps (load_result out)]"
    by (rule lines_of_oneline) (simp add: oneline_load_result)
  from load_data_result[OF run] show ?thesis
  proof
    assume "\<exists>e. r = Inl e \<and> stdout w1 = stdout w @ lines_of (''Loading data from: '' @ inp)"
    then obtain e where "r = Inl e" by blast
    with run have "fst (main_load env [inp, out] w) = 1"
      by (simp add: main_load_def)
    with assms show ?thesis by simp
  next
    assume ok: "r = Inr (load_result out)
          \<and> stdout w1 = stdout w @ lines_of (''Loading data from: '' @ inp)
                @ lines_of (''Data loaded successfully. Records: '' @ str_int 1000)
                @ lines_of (''Output saved to: '' @ out)
          \<and> file_at w1 out = Some (json_dump_indent 0 (sample_data env inp))"
    with run have "main_load env [inp, out] w
        = (0, py_print (''LOAD_RESULT: '' @ json_dumps (load_result out)) w1)"
      by (simp add: main_load_def)
    with ok lr show ?thesis by simp
  qed
qed

lemma main_load_failure:
  assumes "fst (main_load env [inp, out] w) \<noteq> 0"
  shows "fst (main_load env [inp, out] w) = 1
       \<and> (\<exists>e. stdout (snd (main_load env [inp, out] w))
           = stdout w @ lines_of (''Loading data from: '' @ inp)
               @ lines_of (''Error loading data: '' @ exc_str env e))"
proof -
  obtain r w1 where run: "load_data env inp out w = (r, w1)"
    by (cases "load_data env inp out w")
  from load_data_result[OF run] show ?thesis
  proof
    assume "\<exists>e. r = Inl e \<and> stdout w1 = stdout w @ lines_of (''Loading data from: '' @ inp)"
    then obtain e where e: "r = Inl e"
      and s: "stdout w1 = stdout w @ lines_of (''Loading data from: '' @ inp)" by blast
    from run e have "main_load env [inp, out] w
        = (1, py_print (''Error loading data: '' @ exc_str env e) w1)"
      by (simp add: main_load_def)
    with s show ?thesis by auto
  next
    assume "r = Inr (load_result out)
          \<and> stdout w1 = stdout w @ lines_of (''Loading data from: '' @ inp)
                @ lines_of (''Data loaded successfully. Records: '' @ str_int 1000)
                @ lines_of (''Output saved to: '' @ out)
          \<and> file_at w1 out = Some (json_dump_indent 0 (sample_data env inp))"
    with run have "fst (main_load env [inp, out] w) = 0"
      by (simp add: main_load_def)
    with assms show ?thesis by simp
  qed
qed

lemma main_process_success:
  assumes "fst (main_process env [inp, out] w) = 0"
  shows "\<exists>bytes d dd recs prs oc.
            open_read w inp = Inr bytes \<and> json_load env bytes = Inr d
          \<and> py_getitem d ''data'' = Inr dd \<and> py_iter dd = Inr recs
          \<and> process_records env 0 recs = Inr prs
          \<and> py_getitem d ''records_count'' = Inr oc
          \<and> stdout (snd (main_process env [inp, out] w))
              = stdout w @ lines_of (''Processing data from: '' @ inp)
                @ lines_of (''Data processed successfully. Records: '' @ str_int (int (length prs)))
                @ lines_of (''Output saved to: '' @ out)
                @ [''PROCESS_RESULT: '' @ json_dumps (process_result out (length prs))]
          \<and> file_at (snd (main_process env [inp, out] w)) out
              = Some (json_dump_indent 0 (processed_data env inp oc prs))"
proof -
  obtain r w1 where run: "process_data env inp out w = (r, w1)"
    by (cases "process_data env inp out w")
  have lr: "lines_of (''PROCESS_RESULT: '' @ json_dumps (process_result out n))
              = [''PROCESS_RESULT: '' @ json_dumps (process_result out n)]" for n
    by (rule lines_of_oneline) (simp add: oneline_process_result)
  from process_data_result[OF run] show ?thesis
  proof
    assume "\<exists>e. r = Inl e \<and> stdout w1 = stdout w @ lines_of (''Processing data from: '' @ inp)"
    then obtain e where "r = Inl e" by blast
    with run have "fst (main_process env [inp, out] w) = 1"
      by (simp add: main_process_def)
    with assms show ?thesis by simp
  next
    assume "\<exists>bytes d dd recs prs oc.
            open_read w inp = Inr bytes \<and> json_load env bytes = Inr d
          \<and> py_getitem d ''data'' = Inr dd \<and> py_iter dd = Inr recs
          \<and> process_records env 0 recs = Inr prs
          \<and> py_getitem d ''records_count'' = Inr oc
          \<and> r = Inr (process_result out (length prs))
          \<and> stdout w1 = stdout w @ lines_of (''Processing data from: '' @ inp)
                @ lines_of (''Data processed successfully. Records: '' @ str_int (int (length prs)))
                @ lines_of (''Output saved to: '' @ out)
          \<and> file_at w1 out = Some (json_dump_indent 0 (processed_data env inp oc prs))"
    then obtain bytes d dd recs prs oc where
      facts: "open_read w inp = Inr bytes" "json_load env bytes = Inr d"
        "py_getitem d ''data'' = Inr dd" "py_iter dd = Inr recs"
        "process_records env 0 recs = Inr prs" "py_getitem d ''records_count'' = Inr oc"
      and r: "r = Inr (process_result out (length prs))"
      and s: "stdout w1 = stdout w @ lines_of (''Processing data from: '' @ inp)
                @ lines_of (''Data processed successfully. Records: '' @ str_int (int (length prs)))
                @ lines_of (''Output saved to: '' @ out)"
      and f: "file_at w1 out = Some (json_dump_indent 0 (processed_data env inp oc prs))"
      by blast
    from run r have m: "main_process env [inp, out] w
        = (0, py_print (''PROCESS_RESULT: '' @ json_dumps (process_result out (length prs))) w1)"
      by (simp add: main_process_def)
    have "stdout (snd (main_process env [inp, out] w))
              = stdout w @ lines_of (''Processing data from: '' @ inp)
                @ lines_of (''Data processed successfully. Records: '' @ str_int (int (length prs)))
                @ lines_of (''Output saved to: '' @ out)
                @ [''PROCESS_RESULT: '' @ json_dumps (process_result out (length prs))]"
      using m s lr[of "length prs"] by simp
    moreover have "file_at (snd (main_process env [inp, out] w)) out
              = Some (json_dump_indent 0 (processed_data env inp oc prs))"
      using m f by simp
    ultimately show ?thesis
      using facts by blast
  qed
qed

lemma main_process_failure:
  assumes "fst (main_process env [inp, out] w) \<noteq> 0"
  shows "fst (main_process env [inp, out] w) = 1
       \<and> (\<exists>e. stdout (snd (main_process env [inp, out] w))
           = stdout w @ lines_of (''Processing data from: '' @ inp)
               @ lines_of (''Error processing data: '' @ exc_str env e))"
proof -
  obtain r w1 where run: "process_data env inp out w = (r, w1)"
    by (cases "process_data env inp out w")
  show ?thesis
  proof (cases r)
    case (Inl e)
    with process_data_result[OF run]
    have s: "stdout w1 = stdout w @ lines_of (''Processing data from: '' @ inp)"
      by auto
    from run Inl have "main_process env [inp, out] w
        = (1, py_print (''Error processing data: '' @ exc_str env e) w1)"
      by (simp add: main_process_def)
    with s show ?thesis by auto
  next
    case (Inr v)
    with run have "fst (main_process env [inp, out] w) = 0"
      by (simp add: main_process_def)
    with assms show ?thesis by simp
  qed
qed

lemma main_analyze_success:
  assumes "fst (main_analyze env [inp, out] w) = 0"
  shows "\<exists>n. getsize env w inp = Inr n
          \<and> stdout (snd (main_analyze env [inp, out] w))
              = stdout w @ lines_of (''Analyzing results from: '' @ inp)
                @ lines_of ''Analysis completed successfully''
                @ lines_of (''Output saved to: '' @ out)
                @ lines_of ''Overall Status: SUCCESS''
                @ [''ANALYZE_RESULT: '' @ json_dumps (analyze_result out)]
          \<and> file_at (snd (main_analyze env [inp, out] w)) out
              = Some (json_dump_indent 0 (analysis_results env inp n))"
proof -
  obtain r w1 where run: "analyze_results env inp out w = (r, w1)"
    by (cases "analyze_results env inp out w")
  have lr: "lines_of (''ANALYZE_RESULT: '' @ json_dumps (analyze_result out))
              = [''ANALYZE_RESULT: '' @ json_dumps (analyze_result out)]"
    by (rule lines_of_oneline) (simp add: oneline_analyze_result)
  show ?thesis
  proof (cases r)
    case (Inl e)
    with run have "fst (main_analyze env [inp, out] w) = 1"
      by (simp add: main_analyze_def)
    with assms show ?thesis by simp
  next
    case (Inr v)
    with analyze_results_result[OF run] obtain n where
      n: "getsize env w inp = Inr n" and r: "r = Inr (analyze_result out)"
      and s: "stdout w1 = stdout w @ lines_of (''Analyzing results from: '' @ inp)
                @ lines_of ''Analysis completed successfully''
                @ lines_of (''Output saved to: '' @ out)
                @ lines_of ''Overall Status: SUCCESS''"
      and f: "file_at w1 out = Some (json_dump_indent 0 (analysis_results env inp n))"
      by auto
    from run r have m: "main_analyze env [inp, out] w
        = (0, py_print (''ANALYZE_RESULT: '' @ json_dumps (analyze_result out)) w1)"
      by (simp add: main_analyze_def)
    have "stdout (snd (main_analyze env [inp, out] w))
              = stdout w @ lines_of (''Analyzing results from: '' @ inp)
                @ lines_of ''Analysis completed successfully''
                @ lines_of (''Output saved to: '' @ out)
                @ lines_of ''Overall Status: SUCCESS''
                @ [''ANALYZE_RESULT: '' @ json_dumps (analyze_result out)]"
      using m s lr by simp
    moreover have "file_at (snd (main_analyze env [inp, out] w)) out
              = Some (json_dump_indent 0 (analysis_results env inp n))"
      using m f by simp
    ultimately show ?thesis
      using n by blast
  qed
qed

lemma main_analyze_failure:
  assumes "fst (main_analyze env [inp, out] w) \<noteq> 0"
  shows "fst (main_analyze env [inp, out] w) = 1
       \<and> (\<exists>e. stdout (snd (main_analyze env [inp, out] w))
           = stdout w @ lines_of (''Analyzing results from: '' @ inp)
               @ lines_of (''Error analyzing results: '' @ exc_str env e))"
proof -
  obtain r w1 where run: "analyze_results env inp out w = (r, w1)"
    by (cases "analyze_results env inp out w")
  show ?thesis
  proof (cases r)
    case (Inl e)
    with analyze_results_result[OF run]
    have s: "stdout w1 = stdout w @ lines_of (''Analyzing results from: '' @ inp)"
      by auto
    from run Inl have "main_analyze env [inp, out] w
        = (1, py_print (''Error analyzing results: '' @ exc_str env e) w1)"
      by (simp add: main_analyze_def)
    with s show ?thesis by auto
  next
    case (Inr v)
    with run have "fst (main_analyze env [inp, out] w) = 0"
      by (simp add: main_analyze_def)
    with assms show ?thesis by simp
  qed
qed

lemma sample_record_nth:
  assumes "k < 100"
  shows "map (sample_record env) [1..100] ! k = sample_record env (int k + 1)"
proof -
  from assms have "[1..100] ! k = 1 + int k"
    by (intro nth_upto) simp
  with assms show ?thesis
    by (simp add: add.commute)
qed

lemma getsize_parser: "getsize (env\<lparr>json_load := f\<rparr>) w p = getsize env w p"
  by (auto simp: getsize_def split: sum.splits node.splits)

lemma analysis_results_parser:
  "analysis_results (env\<lparr>json_load := f\<rparr>) inp n = analysis_results env inp n"
  by (simp add: analysis_results_def)

lemma analyze_results_parser:
  "analyze_results (env\<lparr>json_load := f\<rparr>) inp out w = analyze_results env inp out w"
  by (simp add: analyze_results_def getsize_parser analysis_results_parser)

lemma getsize_file:
  "os_stat w p = Inr (loc, File r wr bytes) \<Longrightarrow> getsize env w p = Inr (length bytes)"
  by (simp add: getsize_def)


lemma resolve_comps:
  "resolve w p = (if p = [] then Inl (FileNotFoundError p)
                  else walk (nodes w) p (start_loc w p) (comps p))"
  by (simp add: resolve_def comps_def start_loc_def)

lemma split_on_not_Nil: "split_on c s \<noteq> []"
  by (induction s) (auto split: list.splits)

lemma split_on_append_sep: "split_on c (a @ c # b) = split_on c a @ split_on c b"
proof (induction a)
  case Nil
  show ?case by simp
next
  case (Cons x a)
  obtain l ls where "split_on c a = l # ls"
    using split_on_not_Nil[of c a] by (cases "split_on c a") auto
  with Cons show ?case by simp
qed

lemma comps_append_sep: "comps (a @ CHR ''/'' # b) = comps a @ comps b"
  by (simp add: comps_def split_on_append_sep)

lemma comps_plain: "CHR ''/'' \<notin> set t \<Longrightarrow> comps t = (if t = [] then [] else [t])"
  by (simp add: comps_def split_on_absent)

lemma comps_Nil [simp]: "comps [] = []"
  by (simp add: comps_def)

lemma comps_replicate: "comps (replicate k CHR ''/'') = []"
  by (induction k) (simp_all add: comps_def)

lemma comps_append_replicate: "comps (a @ replicate k CHR ''/'') = comps a"
proof (cases k)
  case 0
  then show ?thesis by simp
next
  case (Suc j)
  then have "a @ replicate k CHR ''/'' = a @ CHR ''/'' # replicate j CHR ''/''"
    by simp
  then show ?thesis
    by (simp only: comps_append_sep comps_replicate append_Nil2)
qed

lemma takeWhile_eq_replicate:
  "takeWhile (\<lambda>x. x = c) xs = replicate (length (takeWhile (\<lambda>x. x = c) xs)) c"
  by (induction xs) auto

lemma rstrip_sep_decomp: "\<exists>k. s = rstrip_sep s @ replicate k CHR ''/''"
proof -
  let ?P = "\<lambda>x. x = CHR ''/''"
  have "rev s = takeWhile ?P (rev s) @ dropWhile ?P (rev s)"
    by simp
  then have "s = rev (dropWhile ?P (rev s)) @ rev (takeWhile ?P (rev s))"
    by (metis rev_append rev_rev_ident)
  moreover have "rev (takeWhile ?P (rev s)) = replicate (length (takeWhile ?P (rev s))) CHR ''/''"
    by (subst takeWhile_eq_replicate) simp
  ultimately have "s = rstrip_sep s @ replicate (length (takeWhile ?P (rev s))) CHR ''/''"
    by (simp add: rstrip_sep_def)
  then show ?thesis ..
qed

lemma comps_rstrip: "comps (rstrip_sep s) = comps s"
proof -
  obtain k where "s = rstrip_sep s @ replicate k CHR ''/''"
    using rstrip_sep_decomp by blast
  then have "comps s = comps (rstrip_sep s @ replicate k CHR ''/'')"
    by simp
  then show ?thesis
    by (simp only: comps_append_replicate)
qed

lemma hd_rstrip: "rstrip_sep s \<noteq> [] \<Longrightarrow> hd (rstrip_sep s) = hd s"
proof -
  assume ne: "rstrip_sep s \<noteq> []"
  obtain k where "s = rstrip_sep s @ replicate k CHR ''/''"
    using rstrip_sep_decomp by blast
  then have "hd s = hd (rstrip_sep s @ replicate k CHR ''/'')"
    by simp
  with ne show ?thesis by simp
qed

lemma path_split_raw:
  fixes p :: string
  defines "h0 \<equiv> rev (dropWhile (\<lambda>c. c \<noteq> CHR ''/'') (rev p))"
    and "t \<equiv> rev (takeWhile (\<lambda>c. c \<noteq> CHR ''/'') (rev p))"
  shows "p = h0 @ t" "CHR ''/'' \<notin> set t" "h0 = [] \<or> (\<exists>h1. h0 = h1 @ [CHR ''/''])"
    "snd (path_split p) = t"
    "fst (path_split p) = h0 \<or> fst (path_split p) = rstrip_sep h0"
proof -
  let ?P = "\<lambda>c. c \<noteq> CHR ''/''"
  have "rev p = takeWhile ?P (rev p) @ dropWhile ?P (rev p)" by simp
  then show "p = h0 @ t"
    unfolding h0_def t_def by (metis rev_append rev_rev_ident)
  have "\<forall>x\<in>set (takeWhile ?P (rev p)). x \<noteq> CHR ''/''"
    by (auto dest: set_takeWhileD)
  then show "CHR ''/'' \<notin> set t"
    unfolding t_def by auto
  show "h0 = [] \<or> (\<exists>h1. h0 = h1 @ [CHR ''/''])"
  proof (cases "dropWhile ?P (rev p)")
    case Nil
    then show ?thesis by (simp add: h0_def)
  next
    case (Cons x xs)
    then have "x = CHR ''/''"
      using hd_dropWhile[of ?P "rev p"] by auto
    with Cons show ?thesis by (simp add: h0_def)
  qed
  show "snd (path_split p) = t"
    by (simp add: path_split_def Let_def t_def)
  show "fst (path_split p) = h0 \<or> fst (path_split p) = rstrip_sep h0"
    by (simp add: path_split_def Let_def h0_def)
qed

lemma comps_path_split:
  "comps p = comps (fst (path_split p))
             @ (if snd (path_split p) = [] then [] else [snd (path_split p)])"
proof -
  define h0 where "h0 = rev (dropWhile (\<lambda>c. c \<noteq> CHR ''/'') (rev p))"
  define t where "t = rev (takeWhile (\<lambda>c. c \<noteq> CHR ''/'') (rev p))"
  note raw = path_split_raw[of p, folded h0_def t_def]
  have ch: "comps (fst (path_split p)) = comps h0"
    using raw(5) by (auto simp: comps_rstrip)
  have "comps p = comps h0 @ comps t"
  proof (cases "h0 = []")
    case True
    with raw(1) show ?thesis by simp
  next
    case False
    with raw(3) obtain h1 where h1: "h0 = h1 @ [CHR ''/'']" by blast
    with raw(1) have "p = h1 @ CHR ''/'' # t" by simp
    then have "comps p = comps h1 @ comps t"
      by (simp only: comps_append_sep)
    moreover have "comps h0 = comps h1"
      using comps_append_sep[of h1 "[]"] h1 by simp
    ultimately show ?thesis by simp
  qed
  then show ?thesis
    using ch raw(2) raw(4) by (simp add: comps_plain)
qed

lemma hd_path_split:
  assumes "fst (path_split p) \<noteq> []"
  shows "hd (fst (path_split p)) = hd p"
proof -
  define h0 where "h0 = rev (dropWhile (\<lambda>c. c \<noteq> CHR ''/'') (rev p))"
  define t where "t = rev (takeWhile (\<lambda>c. c \<noteq> CHR ''/'') (rev p))"
  note raw = path_split_raw[of p, folded h0_def t_def]
  have "rstrip_sep [] = []"
    by (simp add: rstrip_sep_def)
  with raw(5) assms have "h0 \<noteq> [] \<and> hd (fst (path_split p)) = hd h0"
    by (auto simp: hd_rstrip)
  with raw(1) show ?thesis
    by (metis hd_append2)
qed

lemma makedirs_comps:
  assumes "makedirs_tail name \<noteq> []"
  shows "comps name = comps (makedirs_head name) @ [makedirs_tail name]"
proof (cases "snd (path_split name) = []")
  case True
  with assms have t: "snd (path_split (fst (path_split name))) \<noteq> []"
    by (simp add: makedirs_tail_def)
  have "comps name = comps (fst (path_split name))"
    using comps_path_split[of name] True by simp
  also have "\<dots> = comps (fst (path_split (fst (path_split name))))
                  @ [snd (path_split (fst (path_split name)))]"
    using comps_path_split[of "fst (path_split name)"] t by simp
  finally show ?thesis
    using True by (simp add: makedirs_head_def makedirs_tail_def)
next
  case False
  then show ?thesis
    using comps_path_split[of name] by (simp add: makedirs_head_def makedirs_tail_def)
qed

lemma makedirs_hd:
  assumes "makedirs_head name \<noteq> []"
  shows "hd (makedirs_head name) = hd name"
proof (cases "snd (path_split name) = []")
  case True
  with assms have h: "fst (path_split (fst (path_split name))) \<noteq> []"
    by (simp add: makedirs_head_def)
  have "path_split [] = ([], [])"
    by (simp add: path_split_def)
  with h have "fst (path_split name) \<noteq> []"
    by auto
  then have "hd (fst (path_split name)) = hd name"
    by (rule hd_path_split)
  moreover have "hd (fst (path_split (fst (path_split name)))) = hd (fst (path_split name))"
    using h by (rule hd_path_split)
  ultimately show ?thesis
    using True by (simp add: makedirs_head_def)
next
  case False
  with assms show ?thesis
    by (simp add: makedirs_head_def hd_path_split)
qed

lemma walk_append:
  "walk nd p cur cs = Inr loc \<Longrightarrow> walk nd p' cur (cs @ cs') = walk nd p' loc cs'"
proof (induction cs arbitrary: cur)
  case Nil
  then show ?case by simp
next
  case (Cons c cs)
  from Cons.prems obtain wr where d: "nd cur = Some (Dir wr)"
    by (auto split: option.splits node.splits)
  with Cons show ?case by simp
qed

lemma walk_prefix:
  "walk nd p cur (cs @ [c]) = Inr loc \<Longrightarrow>
   \<exists>cur' wr. walk nd p' cur cs = Inr cur' \<and> nd cur' = Some (Dir wr)"
proof (induction cs arbitrary: cur)
  case Nil
  then show ?case
    by (auto split: option.splits node.splits)
next
  case (Cons x cs)
  from Cons.prems obtain wr where d: "nd cur = Some (Dir wr)"
    by (auto split: option.splits node.splits)
  with Cons show ?case by simp
qed

lemma isdir_head_exists:
  assumes "path_isdir w name" "makedirs_head name \<noteq> []" "makedirs_tail name \<noteq> []"
  shows "path_exists w (makedirs_head name)"
proof -
  from assms(1) obtain loc where r: "resolve w name = Inr loc"
    by (auto simp: path_isdir_def os_stat_def split: sum.splits)
  then have ne: "name \<noteq> []"
    by (auto simp: resolve_def split: if_splits)
  with r have "walk (nodes w) name (start_loc w name) (comps name) = Inr loc"
    by (simp add: resolve_comps)
  then have "walk (nodes w) name (start_loc w name)
               (comps (makedirs_head name) @ [makedirs_tail name]) = Inr loc"
    using makedirs_comps[OF assms(3)] by simp
  from walk_prefix[OF this, of "makedirs_head name"] obtain cur wr where
    c: "walk (nodes w) (makedirs_head name) (start_loc w name) (comps (makedirs_head name)) = Inr cur"
    and d: "nodes w cur = Some (Dir wr)"
    by blast
  have "start_loc w (makedirs_head name) = start_loc w name"
    using makedirs_hd[OF assms(2)] by (simp add: start_loc_def)
  with c assms(2) have "resolve w (makedirs_head name) = Inr cur"
    by (simp add: resolve_comps)
  with d show ?thesis
    by (simp add: path_exists_def os_stat_def)
qed

lemma makedirs_isdir:
  assumes "path_isdir w name"
  shows "makedirs w name = (None, w)"
proof -
  have "\<not> (makedirs_head name \<noteq> [] \<and> makedirs_tail name \<noteq> []
            \<and> \<not> path_exists w (makedirs_head name))"
    using isdir_head_exists[OF assms] by blast
  then have "makedirs w name = mkdir_exist_ok w name"
    by (subst makedirs.simps) (simp only: if_False)
  moreover from assms obtain loc n where "resolve w name = Inr loc" "nodes w loc = Some n"
    by (auto simp: path_isdir_def os_stat_def split: sum.splits option.splits)
  then have "os_mkdir w name = Inl (FileExistsError name)"
    by (simp add: os_mkdir_def)
  ultimately show ?thesis
    using assms by (simp add: mkdir_exist_ok_def)
qed

lemma os_stat_dirD:
  assumes "os_stat w d = Inr (L, Dir wr)"
  shows "d \<noteq> []" "walk (nodes w) p' (start_loc w d) (comps d) = Inr L" "nodes w L = Some (Dir wr)"
proof -
  from assms have r: "resolve w d = Inr L" and n: "nodes w L = Some (Dir wr)"
    by (auto simp: os_stat_def split: sum.splits option.splits node.splits if_splits)
  from r show ne: "d \<noteq> []"
    by (auto simp: resolve_def split: if_splits)
  from r ne have "walk (nodes w) d (start_loc w d) (comps d) = Inr L"
    by (simp add: resolve_comps)
  from walk_append[OF this, of p' "[]"] show "walk (nodes w) p' (start_loc w d) (comps d) = Inr L"
    by simp
  show "nodes w L = Some (Dir wr)" by (rule n)
qed

lemma resolve_entry:
  assumes "os_stat w d = Inr (L, Dir wr)" "plain f"
  shows "resolve w (d @ ''/'' @ f) = Inr (L @ [f])"
proof -
  note d = os_stat_dirD[OF assms(1)]
  let ?p = "d @ ''/'' @ f"
  from assms(2) have c: "comps ?p = comps d @ [f]"
    using comps_append_sep[of d f] by (simp add: comps_plain plain_def)
  have s: "start_loc w ?p = start_loc w d"
    using d(1) by (simp add: start_loc_def)
  have "walk (nodes w) ?p (start_loc w d) (comps d @ [f]) = walk (nodes w) ?p L [f]"
    by (rule walk_append[OF d(2)])
  also have "\<dots> = Inr (L @ [f])"
    using d(3) assms(2) by (simp add: plain_def)
  finally show ?thesis
    using c s by (simp add: resolve_comps)
qed

lemma rstrip_Nil_all: "rstrip_sep s = [] \<Longrightarrow> list_all (\<lambda>c. c = CHR ''/'') s"
proof -
  assume a: "rstrip_sep s = []"
  obtain k where "s = rstrip_sep s @ replicate k CHR ''/''"
    using rstrip_sep_decomp by blast
  with a have "s = replicate k CHR ''/''" by simp
  then have "set s \<subseteq> {CHR ''/''}"
    by (metis set_replicate_conv_if empty_subsetI subset_refl)
  then show ?thesis
    by (auto simp: list_all_iff)
qed

lemma dirname_entry:
  assumes "plain f"
  shows "dirname (d @ ''/'' @ f) = d @ ''/'' \<or> 
         (dirname (d @ ''/'' @ f) = rstrip_sep (d @ ''/'') \<and> rstrip_sep (d @ ''/'') \<noteq> [])"
proof -
  let ?P = "\<lambda>c. c \<noteq> CHR ''/''"
  from assms have nf: "\<And>x. x \<in> set (rev f) \<Longrightarrow> ?P x"
    by (auto simp: plain_def)
  have "dropWhile ?P (rev (d @ ''/'' @ f)) = dropWhile ?P (rev f @ CHR ''/'' # rev d)"
    by simp
  also have "\<dots> = dropWhile ?P (CHR ''/'' # rev d)"
    using nf by (rule dropWhile_append2)
  finally have h0: "rev (dropWhile ?P (rev (d @ ''/'' @ f))) = d @ ''/''"
    by simp
  show ?thesis
  proof (cases "list_all (\<lambda>c. c = CHR ''/'') (d @ ''/'')")
    case True
    then show ?thesis
      using h0 by (simp add: dirname_def path_split_def Let_def del: rev_append)
  next
    case False
    then have "rstrip_sep (d @ ''/'') \<noteq> []"
      using rstrip_Nil_all by blast
    then show ?thesis
      using h0 False by (simp add: dirname_def path_split_def Let_def del: rev_append)
  qed
qed

lemma dirname_entry_stat:
  assumes "os_stat w d = Inr (L, Dir wr)" "plain f"
  shows "os_stat w (dirname (d @ ''/'' @ f)) = Inr (L, Dir wr)"
proof -
  note d = os_stat_dirD[OF assms(1)]
  let ?h = "dirname (d @ ''/'' @ f)"
  have c0: "comps (d @ ''/'') = comps d"
    using comps_append_sep[of d "[]"] by simp
  have hd0: "hd (d @ ''/'') = hd d"
    using d(1) by simp
  from dirname_entry[OF assms(2), of d]
  have "?h \<noteq> [] \<and> comps ?h = comps d \<and> hd ?h = hd d"
  proof
    assume "?h = d @ ''/''"
    then show ?thesis using c0 hd0 by simp
  next
    assume a: "?h = rstrip_sep (d @ ''/'') \<and> rstrip_sep (d @ ''/'') \<noteq> []"
    then have "hd ?h = hd (d @ ''/'')"
      by (simp add: hd_rstrip)
    with a c0 hd0 show ?thesis
      by (simp add: comps_rstrip)
  qed
  then have ne: "?h \<noteq> []" and c: "comps ?h = comps d" and s: "start_loc w ?h = start_loc w d"
    by (simp_all add: start_loc_def)
  have "resolve w ?h = Inr L"
    using ne c s d(2)[of ?h] by (simp add: resolve_comps)
  then show ?thesis
    using d(3) by (simp add: os_stat_def)
qed

lemma makedirs_entry:
  assumes "os_stat w d = Inr (L, Dir wr)" "plain f"
  shows "makedirs w (dirname (d @ ''/'' @ f)) = (None, w)"
proof (rule makedirs_isdir)
  show "path_isdir w (dirname (d @ ''/'' @ f))"
    using dirname_entry_stat[OF assms] by (simp add: path_isdir_def)
qed

lemma not_ends_sep_entry: "plain f \<Longrightarrow> \<not> ends_sep (d @ ''/'' @ f)"
proof -
  assume "plain f"
  then have ne: "f \<noteq> []" and nf: "CHR ''/'' \<notin> set f"
    by (simp_all add: plain_def)
  have "last f \<noteq> CHR ''/''"
    using last_in_set[OF ne] nf by metis
  moreover have "last (d @ ''/'' @ f) = last f"
    using ne by simp
  ultimately show ?thesis
    by (simp only: ends_sep_def) simp
qed

lemma open_write_entry:
  assumes "os_stat w d = Inr (L, Dir True)" "plain f" "nodes w (L @ [f]) = None"
  shows "open_write w (d @ ''/'' @ f) bytes
           = Inr (w\<lparr>nodes := (nodes w)(L @ [f] \<mapsto> File True True bytes)\<rparr>)"
  using resolve_entry[OF assms(1,2)] not_ends_sep_entry[OF assms(2), of d] assms(3)
    os_stat_dirD(3)[OF assms(1)]
  by (simp add: open_write_def create_entry_def)

lemma os_stat_after_write:
  assumes "os_stat w d = Inr (L, Dir wr)" "\<And>wr'. nodes w x \<noteq> Some (Dir wr')"
  shows "os_stat (w\<lparr>nodes := (nodes w)(x \<mapsto> File r wr2 bytes)\<rparr>) d = Inr (L, Dir wr)"
proof -
  note d = os_stat_dirD[OF assms(1)]
  let ?w = "w\<lparr>nodes := (nodes w)(x \<mapsto> File r wr2 bytes)\<rparr>"
  have "walk ((nodes w)(x \<mapsto> File r wr2 bytes)) d (start_loc w d) (comps d) = Inr L"
    by (rule walk_update[OF d(2)[of d] assms(2)])
  moreover have "start_loc ?w d = start_loc w d"
    by (simp add: start_loc_def)
  ultimately have "resolve ?w d = Inr L"
    using d(1) by (simp add: resolve_comps)
  moreover have "x \<noteq> L"
    using d(3) assms(2) by auto
  ultimately show ?thesis
    using d(3) by (simp add: os_stat_def)
qed

lemma os_stat_entry:
  assumes "os_stat w d = Inr (L, Dir wr)" "plain f" "nodes w (L @ [f]) = Some (File r wr2 bytes)"
  shows "os_stat w (d @ ''/'' @ f) = Inr (L @ [f], File r wr2 bytes)"
  using resolve_entry[OF assms(1,2)] not_ends_sep_entry[OF assms(2), of d] assms(3)
  by (simp add: os_stat_def)

lemma os_stat_eqI:
  assumes a: "nodes w' = nodes w" and b: "cwd w' = cwd w"
  shows "os_stat w' p = os_stat w p"
  unfolding os_stat_def resolve_def a b by (rule refl)

lemma dir_after_write:
  assumes "os_stat w d = Inr (L, Dir wr)" "\<And>wr'. nodes w x \<noteq> Some (Dir wr')"
    and "nodes w' = (nodes w)(x \<mapsto> File r wr2 bytes)" "cwd w' = cwd w"
  shows "os_stat w' d = Inr (L, Dir wr)"
proof -
  have "os_stat w' d = os_stat (w\<lparr>nodes := (nodes w)(x \<mapsto> File r wr2 bytes)\<rparr>) d"
    by (rule os_stat_eqI) (simp_all add: assms(3,4))
  then show ?thesis
    using os_stat_after_write[OF assms(1,2)] by simp
qed

lemma sample_records_loaded: "list_all loaded_record (map (sample_record env) xs)"
  by (simp add: list_all_iff loaded_record_def sample_record_def py_getitem_JObj)

lemma load_into_dir:
  assumes "os_stat w d = Inr (L, Dir True)" "plain f" "nodes w (L @ [f]) = None"
  shows "fst (main_load env [inp, d @ ''/'' @ f] w) = 0
       \<and> nodes (snd (main_load env [inp, d @ ''/'' @ f] w))
           = (nodes w)(L @ [f] \<mapsto> File True True (json_dump_indent 0 (sample_data env inp)))
       \<and> cwd (snd (main_load env [inp, d @ ''/'' @ f] w)) = cwd w"
proof -
  define w1 where "w1 = py_print (''Loading data from: '' @ inp) w"
  have st: "os_stat w1 d = Inr (L, Dir True)" and n: "nodes w1 (L @ [f]) = None"
    using assms by (simp_all add: w1_def)
  have mk: "makedirs w1 (dirname (d @ ''/'' @ f)) = (None, w1)"
    by (rule makedirs_entry[OF st assms(2)])
  have ow: "open_write w1 (d @ ''/'' @ f) bytes
      = Inr (w1\<lparr>nodes := (nodes w1)(L @ [f] \<mapsto> File True True bytes)\<rparr>)" for bytes
    by (rule open_write_entry[OF st assms(2) n])
  have "load_data env inp (d @ ''/'' @ f) w =
      (Inr (load_result (d @ ''/'' @ f)),
       py_print (''Output saved to: '' @ d @ ''/'' @ f)
         (py_print (''Data loaded successfully. Records: '' @ str_int 1000)
           (w1\<lparr>nodes := (nodes w1)(L @ [f] \<mapsto>
                   File True True (json_dump_indent 0 (sample_data env inp)))\<rparr>)))"
    unfolding load_data_def Let_def w1_def[symmetric]
    by (simp only: mk ow prod.case option.case raise_or_simps sample_data_items
          py_getitem_JObj load_result_def py_format_def)
       (simp add: py_format_def)
  then show ?thesis
    by (simp add: main_load_def w1_def)
qed

lemma process_into_dir:
  assumes "os_stat w d = Inr (L, Dir True)" "plain f" "nodes w (L @ [f]) = None"
    and "open_read w inp = Inr bytes" "json_load env bytes = Inr doc"
    and "py_getitem doc ''data'' = Inr (JArr recs)" "list_all loaded_record recs"
    and "py_getitem doc ''records_count'' = Inr oc"
  shows "\<exists>prs. process_records env 0 recs = Inr prs \<and> length prs = length recs
       \<and> fst (main_process env [inp, d @ ''/'' @ f] w) = 0
       \<and> nodes (snd (main_process env [inp, d @ ''/'' @ f] w))
           = (nodes w)(L @ [f] \<mapsto> File True True
                (json_dump_indent 0 (processed_data env inp oc prs)))
       \<and> cwd (snd (main_process env [inp, d @ ''/'' @ f] w)) = cwd w"
proof -
  define w1 where "w1 = py_print (''Processing data from: '' @ inp) w"
  have st: "os_stat w1 d = Inr (L, Dir True)" and n: "nodes w1 (L @ [f]) = None"
    and rd: "open_read w1 inp = Inr bytes"
    using assms by (simp_all add: w1_def)
  have mk: "makedirs w1 (dirname (d @ ''/'' @ f)) = (None, w1)"
    by (rule makedirs_entry[OF st assms(2)])
  have ow: "open_write w1 (d @ ''/'' @ f) b
      = Inr (w1\<lparr>nodes := (nodes w1)(L @ [f] \<mapsto> File True True b)\<rparr>)" for b
    by (rule open_write_entry[OF st assms(2) n])
  from process_records_loaded[OF assms(7), of env 0] obtain prs where
    prs: "process_records env 0 recs = Inr prs" and len: "length prs = length recs"
    by blast
  have it: "py_iter (JArr recs) = Inr recs"
    by (simp add: py_iter_def)
  have "process_data env inp (d @ ''/'' @ f) w =
      (Inr (process_result (d @ ''/'' @ f) (length prs)),
       py_print (''Output saved to: '' @ d @ ''/'' @ f)
         (py_print (''Data processed successfully. Records: '' @ str_int (int (length prs)))
           (w1\<lparr>nodes := (nodes w1)(L @ [f] \<mapsto>
                   File True True (json_dump_indent 0 (processed_data env inp oc prs)))\<rparr>)))"
    unfolding process_data_def Let_def w1_def[symmetric]
    by (simp only: rd assms(5,6,8) it prs mk ow prod.case option.case raise_or_simps
          processed_data_items py_getitem_JObj process_result_def)
       simp
  then have "fst (main_process env [inp, d @ ''/'' @ f] w) = 0
       \<and> nodes (snd (main_process env [inp, d @ ''/'' @ f] w))
           = (nodes w)(L @ [f] \<mapsto> File True True
                (json_dump_indent 0 (processed_data env inp oc prs)))
       \<and> cwd (snd (main_process env [inp, d @ ''/'' @ f] w)) = cwd w"
    by (simp add: main_process_def w1_def)
  with prs len show ?thesis by blast
qed

lemma analyze_into_dir:
  assumes "os_stat w d = Inr (L, Dir True)" "plain f" "nodes w (L @ [f]) = None"
    and "getsize env w inp = Inr n"
  shows "fst (main_analyze env [inp, d @ ''/'' @ f] w) = 0
       \<and> nodes (snd (main_analyze env [inp, d @ ''/'' @ f] w))
           = (nodes w)(L @ [f] \<mapsto> File True True
                (json_dump_indent 0 (analysis_results env inp n)))
       \<and> cwd (snd (main_analyze env [inp, d @ ''/'' @ f] w)) = cwd w"
proof -
  define w1 where "w1 = py_print (''Analyzing results from: '' @ inp) w"
  have st: "os_stat w1 d = Inr (L, Dir True)" and n: "nodes w1 (L @ [f]) = None"
    and gs: "getsize env w1 inp = Inr n"
    using assms by (simp_all add: w1_def)
  have mk: "makedirs w1 (dirname (d @ ''/'' @ f)) = (None, w1)"
    by (rule makedirs_entry[OF st assms(2)])
  have ow: "open_write w1 (d @ ''/'' @ f) b
      = Inr (w1\<lparr>nodes := (nodes w1)(L @ [f] \<mapsto> File True True b)\<rparr>)" for b
    by (rule open_write_entry[OF st assms(2) n])
  have "analyze_results env inp (d @ ''/'' @ f) w =
      (Inr (analyze_result (d @ ''/'' @ f)),
       py_print ''Overall Status: SUCCESS''
         (py_print (''Output saved to: '' @ d @ ''/'' @ f)
           (py_print ''Analysis completed successfully''
             (w1\<lparr>nodes := (nodes w1)(L @ [f] \<mapsto>
                   File True True (json_dump_indent 0 (analysis_results env inp n)))\<rparr>))))"
    unfolding analyze_results_def Let_def w1_def[symmetric]
    by (simp only: gs mk ow prod.case option.case raise_or_simps
          analysis_results_items py_getitem_JObj analyze_result_def)
       (simp add: py_format_def py_len_def)
  then show ?thesis
    by (simp add: main_analyze_def w1_def)
qed

lemma demo_work_dir: "os_stat demo_world ''/tmp/work'' = Inr ([''tmp'', ''work''], Dir True)"
  by (simp add: os_stat_def resolve_def demo_world_def)

lemma demo_notes:
  "os_stat demo_world ''/tmp/work/notes.txt''
     = Inr ([''tmp'', ''work'', ''notes.txt''], File True True ''not json'')"
  by (simp add: os_stat_def resolve_def demo_world_def ends_sep_def)

lemma demo_load_runs:
  "fst (main_load demo_base [''input.csv'', ''/tmp/work/loaded.json''] demo_world) = 0"
  using load_into_dir[OF demo_work_dir, of "''loaded.json''" demo_base "''input.csv''"]
  by (simp add: plain_def demo_world_def)

lemma file_at_entry:
  assumes "os_stat w d = Inr (L, Dir wr)" "plain f" "nodes w (L @ [f]) = Some (File r wr2 bytes)"
  shows "file_at w (d @ ''/'' @ f) = Some bytes"
  using os_stat_entry[OF assms] by (simp add: file_at_def)

lemma open_read_entry:
  assumes "os_stat w d = Inr (L, Dir wr)" "plain f" "nodes w (L @ [f]) = Some (File True wr2 bytes)"
  shows "open_read w (d @ ''/'' @ f) = Inr bytes"
  using os_stat_entry[OF assms] by (simp add: open_read_def)

lemma getsize_entry:
  assumes "os_stat w d = Inr (L, Dir wr)" "plain f" "nodes w (L @ [f]) = Some (File r wr2 bytes)"
  shows "getsize env w (d @ ''/'' @ f) = Inr (length bytes)"
  using os_stat_entry[OF assms] by (simp add: getsize_def)

lemma demo_parses:
  "json_load demo_platform (json_dump_indent 0 (sample_data demo_base ''input.csv''))
     = Inr (sample_data demo_base ''input.csv'')"
  by (simp add: demo_platform_def)

lemma demo_fresh:
  "nodes demo_world ([''tmp'', ''work''] @ [''loaded.json'']) = None"
  "nodes demo_world ([''tmp'', ''work''] @ [''processed.json'']) = None"
  "nodes demo_world ([''tmp'', ''work''] @ [''report.json'']) = None"
  by (simp_all add: demo_world_def)

lemma demo_plain: "plain ''loaded.json''" "plain ''processed.json''" "plain ''report.json''"
  by (simp_all add: plain_def)

lemma demo_loaded_file:
  "open_read demo_loaded_world ''/tmp/work/loaded.json''
     = Inr (json_dump_indent 0 (sample_data demo_base ''input.csv''))"
proof -
  from load_into_dir[OF demo_work_dir demo_plain(1) demo_fresh(1), of demo_base "''input.csv''"]
  have n: "nodes demo_loaded_world = (nodes demo_world)([''tmp'', ''work''] @ [''loaded.json''] \<mapsto>
              File True True (json_dump_indent 0 (sample_data demo_base ''input.csv'')))"
    and c: "cwd demo_loaded_world = cwd demo_world"
    by (simp_all add: demo_loaded_world_def)
  have t: "os_stat demo_loaded_world ''/tmp/work'' = Inr ([''tmp'', ''work''], Dir True)"
    by (rule dir_after_write[OF demo_work_dir _ n c]) (use demo_fresh(1) in simp)
  have "open_read demo_loaded_world (''/tmp/work'' @ ''/'' @ ''loaded.json'')
     = Inr (json_dump_indent 0 (sample_data demo_base ''input.csv''))"
    by (rule open_read_entry[OF t demo_plain(1)]) (simp add: n)
  then show ?thesis by simp
qed

lemma demo_a:
  "os_stat demo_world ''/tmp/work/a.json''
     = Inr ([''tmp'', ''work'', ''a.json''], File True True ''[1, 2]'')"
  by (simp add: os_stat_def resolve_def demo_world_def ends_sep_def)

lemma demo_b:
  "os_stat demo_world ''/tmp/work/b.json''
     = Inr ([''tmp'', ''work'', ''b.json''], File True True ''[3, 4]'')"
  by (simp add: os_stat_def resolve_def demo_world_def ends_sep_def)

lemma demo_analyze_a:
  "fst (main_analyze demo_base [''/tmp/work/a.json'', ''/tmp/work/report.json''] demo_world) = 0"
  using analyze_into_dir[OF demo_work_dir demo_plain(3) demo_fresh(3)
      getsize_file[OF demo_a, of demo_base]]
  by simp

lemma demo_analyze_b:
  "fst (main_analyze demo_base [''/tmp/work/b.json'', ''/tmp/work/report.json''] demo_world) = 0"
  using analyze_into_dir[OF demo_work_dir demo_plain(3) demo_fresh(3)
      getsize_file[OF demo_b, of demo_base]]
  by simp

lemma analyze_success_facts:
  assumes "os_stat w inp = Inr (loc, File r wr bytes)"
    and "fst (main_analyze env [inp, out] w) = 0"
  shows "file_at (snd (main_analyze env [inp, out] w)) out
           = Some (json_dump_indent 0 (analysis_results env inp (length bytes)))"
    and "last (stdout (snd (main_analyze env [inp, out] w)))
           = ''ANALYZE_RESULT: '' @ json_dumps (analyze_result out)"
  using main_analyze_success[OF assms(2)] getsize_file[OF assms(1), of env]
  by auto

lemma result_line_simps:
  "result_line (result_prefix st @ s)"
  "\<not> result_line (error_prefix st @ s)"
  "\<not> result_line (''Loading data from: '' @ s)"
  "\<not> result_line (''Processing data from: '' @ s)"
  "\<not> result_line (''Analyzing results from: '' @ s)"
  "\<not> result_line (''Data loaded successfully. Records: '' @ s)"
  "\<not> result_line (''Data processed successfully. Records: '' @ s)"
  "\<not> result_line ''Analysis completed successfully''"
  "\<not> result_line (''Output saved to: '' @ s)"
  "\<not> result_line ''Overall Status: SUCCESS''"
  by (cases st; simp add: result_line_def)+

lemma list_all_intros:
  "list_all P []"
  "P x \<Longrightarrow> list_all P xs \<Longrightarrow> list_all P (x # xs)"
  by simp_all

lemma contract_success:
  assumes "fst R = 0"
    and "stdout (snd R) = stdout w @ ps @ [result_prefix st @ json_dumps (JObj kvs)]"
    and "oneline (json_dumps (JObj kvs))"
    and "list_all (\<lambda>l. \<not> result_line l) ps"
  shows "(fst R = 0
          \<and> (\<exists>progress kvs.
                stdout (snd R) = stdout w @ progress @ [result_prefix st @ json_dumps (JObj kvs)]
              \<and> oneline (json_dumps (JObj kvs))
              \<and> list_all (\<lambda>l. \<not> result_line l) progress))
       \<or> (fst R = 1
          \<and> (\<exists>progress msg.
                stdout (snd R) = stdout w @ progress @ [error_prefix st @ msg]
              \<and> list_all (\<lambda>l. \<not> result_line l) (progress @ [error_prefix st @ msg])))"
proof -
  have "\<exists>progress kvs.
                stdout (snd R) = stdout w @ progress @ [result_prefix st @ json_dumps (JObj kvs)]
              \<and> oneline (json_dumps (JObj kvs))
              \<and> list_all (\<lambda>l. \<not> result_line l) progress"
    using assms(2-4) by (intro exI conjI)
  with assms(1) show ?thesis
    by (intro disjI1 conjI)
qed

lemma contract_failure:
  assumes "fst R = 1"
    and "stdout (snd R) = stdout w @ [p] @ [error_prefix st @ msg]"
    and "\<not> result_line p"
  shows "(fst R = 0
          \<and> (\<exists>progress kvs.
                stdout (snd R) = stdout w @ progress @ [result_prefix st @ json_dumps (JObj kvs)]
              \<and> oneline (json_dumps (JObj kvs))
              \<and> list_all (\<lambda>l. \<not> result_line l) progress))
       \<or> (fst R = 1
          \<and> (\<exists>progress msg.
                stdout (snd R) = stdout w @ progress @ [error_prefix st @ msg]
              \<and> list_all (\<lambda>l. \<not> result_line l) (progress @ [error_prefix st @ msg])))"
proof -
  have "list_all (\<lambda>l. \<not> result_line l) ([p] @ [error_prefix st @ msg])"
    using assms(3) result_line_simps(2)[of st msg] by simp
  with assms(2) have "\<exists>progress msg.
                stdout (snd R) = stdout w @ progress @ [error_prefix st @ msg]
              \<and> list_all (\<lambda>l. \<not> result_line l) (progress @ [error_prefix st @ msg])"
    by (intro exI conjI)
  with assms(1) show ?thesis
    by (intro disjI2 conjI)
qed

lemma load_contract:
  assumes "oneline inp" "oneline out" "\<forall>e. oneline (exc_str env e)"
  shows "(fst (run_stage Loader env [inp, out] w) = 0
          \<and> (\<exists>progress kvs.
                stdout (snd (run_stage Loader env [inp, out] w))
                  = stdout w @ progress @ [result_prefix Loader @ json_dumps (JObj kvs)]
              \<and> oneline (json_dumps (JObj kvs))
              \<and> list_all (\<lambda>l. \<not> result_line l) progress))
       \<or> (fst (run_stage Loader env [inp, out] w) = 1
          \<and> (\<exists>progress msg.
                stdout (snd (run_stage Loader env [inp, out] w))
                  = stdout w @ progress @ [error_prefix Loader @ msg]
              \<and> list_all (\<lambda>l. \<not> result_line l) (progress @ [error_prefix Loader @ msg])))"
proof (cases "fst (main_load env [inp, out] w) = 0")
  case True
  have l1: "lines_of (''Loading data from: '' @ inp) = [''Loading data from: '' @ inp]"
    by (rule lines_of_oneline) (simp add: assms)
  have l2: "lines_of (''Data loaded successfully. Records: '' @ str_int 1000)
              = [''Data loaded successfully. Records: '' @ str_int 1000]"
    by (rule lines_of_oneline) (simp add: oneline_str_int)
  have l3: "lines_of (''Output saved to: '' @ out) = [''Output saved to: '' @ out]"
    by (rule lines_of_oneline) (simp add: assms)
  have s: "stdout (snd (run_stage Loader env [inp, out] w))
             = stdout w @ [''Loading data from: '' @ inp,
                           ''Data loaded successfully. Records: '' @ str_int 1000,
                           ''Output saved to: '' @ out]
               @ [result_prefix Loader @ json_dumps (JObj [(''status'', JStr ''success''),
           (''records_loaded'', JInt 1000),
           (''output_file'', JStr out),
           (''file_size'', JStr ''2.5MB'')])]"
    using main_load_success[OF True, THEN conjunct1] unfolding l1 l2 l3 load_result_def by simp
  have p: "list_all (\<lambda>l. \<not> result_line l)
             [''Loading data from: '' @ inp,
              ''Data loaded successfully. Records: '' @ str_int 1000,
              ''Output saved to: '' @ out]"
    by (intro list_all_intros result_line_simps)
  have r: "fst (run_stage Loader env [inp, out] w) = 0"
    using True by simp
  show ?thesis
    using r s oneline_load_result[of out, unfolded load_result_def] p
    by (rule contract_success)
next
  case False
  from main_load_failure[OF False] obtain e where
    one: "fst (main_load env [inp, out] w) = 1"
    and s0: "stdout (snd (main_load env [inp, out] w))
           = stdout w @ lines_of (''Loading data from: '' @ inp)
               @ lines_of (''Error loading data: '' @ exc_str env e)"
    by (elim exE conjE)
  have l1: "lines_of (''Loading data from: '' @ inp) = [''Loading data from: '' @ inp]"
    by (rule lines_of_oneline) (simp add: assms)
  have l2: "lines_of (''Error loading data: '' @ exc_str env e)
              = [''Error loading data: '' @ exc_str env e]"
    by (rule lines_of_oneline) (simp add: assms)
  have s: "stdout (snd (run_stage Loader env [inp, out] w))
           = stdout w @ [''Loading data from: '' @ inp] @ [error_prefix Loader @ exc_str env e]"
    using s0 unfolding l1 l2 by simp
  have r: "fst (run_stage Loader env [inp, out] w) = 1"
    using one by simp
  show ?thesis
    using r s result_line_simps(3) by (rule contract_failure)
qed

lemma process_contract:
  assumes "oneline inp" "oneline out" "\<forall>e. oneline (exc_str env e)"
  shows "(fst (run_stage Transformer env [inp, out] w) = 0
          \<and> (\<exists>progress kvs.
                stdout (snd (run_stage Transformer env [inp, out] w))
                  = stdout w @ progress @ [result_prefix Transformer @ json_dumps (JObj kvs)]
              \<and> oneline (json_dumps (JObj kvs))
              \<and> list_all (\<lambda>l. \<not> result_line l) progress))
       \<or> (fst (run_stage Transformer env [inp, out] w) = 1
          \<and> (\<exists>progress msg.
                stdout (snd (run_stage Transformer env [inp, out] w))
                  = stdout w @ progress @ [error_prefix Transformer @ msg]
              \<and> list_all (\<lambda>l. \<not> result_line l) (progress @ [error_prefix Transformer @ msg])))"
proof (cases "fst (main_process env [inp, out] w) = 0")
  case True
  from main_process_success[OF True] obtain n where
    s0: "stdout (snd (main_process env [inp, out] w))
              = stdout w @ lines_of (''Processing data from: '' @ inp)
                @ lines_of (''Data processed successfully. Records: '' @ str_int (int n))
                @ lines_of (''Output saved to: '' @ out)
                @ [''PROCESS_RESULT: '' @ json_dumps (process_result out n)]"
    by (elim exE conjE)
  have l1: "lines_of (''Processing data from: '' @ inp) = [''Processing data from: '' @ inp]"
    by (rule lines_of_oneline) (simp add: assms)
  have l2: "lines_of (''Data processed successfully. Records: '' @ str_int (int n))
              = [''Data processed successfully. Records: '' @ str_int (int n)]"
    by (rule lines_of_oneline) (simp add: oneline_str_int)
  have l3: "lines_of (''Output saved to: '' @ out) = [''Output saved to: '' @ out]"
    by (rule lines_of_oneline) (simp add: assms)
  have s: "stdout (snd (run_stage Transformer env [inp, out] w))
             = stdout w @ [''Processing data from: '' @ inp,
                           ''Data processed successfully. Records: '' @ str_int (int n),
                           ''Output saved to: '' @ out]
               @ [result_prefix Transformer @ json_dumps (JObj [(''status'', JStr ''success''),
           (''records_processed'', JInt (int n)),
           (''output_file'', JStr out),
           (''processing_time_ms'', JInt 150),
           (''transformations_applied'',
              JArr [JStr ''uppercase_conversion'', JStr ''timestamp_normalization''])])]"
    using s0 unfolding l1 l2 l3 process_result_def by simp
  have p: "list_all (\<lambda>l. \<not> result_line l)
             [''Processing data from: '' @ inp,
              ''Data processed successfully. Records: '' @ str_int (int n),
              ''Output saved to: '' @ out]"
    by (intro list_all_intros result_line_simps)
  have r: "fst (run_stage Transformer env [inp, out] w) = 0"
    using True by simp
  show ?thesis
    using r s oneline_process_result[of out n, unfolded process_result_def] p
    by (rule contract_success)
next
  case False
  from main_process_failure[OF False] obtain e where
    one: "fst (main_process env [inp, out] w) = 1"
    and s0: "stdout (snd (main_process env [inp, out] w))
           = stdout w @ lines_of (''Processing data from: '' @ inp)
               @ lines_of (''Error processing data: '' @ exc_str env e)"
    by (elim exE conjE)
  have l1: "lines_of (''Processing data from: '' @ inp) = [''Processing data from: '' @ inp]"
    by (rule lines_of_oneline) (simp add: assms)
  have l2: "lines_of (''Error processing data: '' @ exc_str env e)
              = [''Error processing data: '' @ exc_str env e]"
    by (rule lines_of_oneline) (simp add: assms)
  have s: "stdout (snd (run_stage Transformer env [inp, out] w))
           = stdout w @ [''Processing data from: '' @ inp]
               @ [error_prefix Transformer @ exc_str env e]"
    using s0 unfolding l1 l2 by simp
  have r: "fst (run_stage Transformer env [inp, out] w) = 1"
    using one by simp
  show ?thesis
    using r s result_line_simps(4) by (rule contract_failure)
qed

lemma analyze_contract:
  assumes "oneline inp" "oneline out" "\<forall>e. oneline (exc_str env e)"
  shows "(fst (run_stage Analyzer env [inp, out] w) = 0
          \<and> (\<exists>progress kvs.
                stdout (snd (run_stage Analyzer env [inp, out] w))
                  = stdout w @ progress @ [result_prefix Analyzer @ json_dumps (JObj kvs)]
              \<and> oneline (json_dumps (JObj kvs))
              \<and> list_all (\<lambda>l. \<not> result_line l) progress))
       \<or> (fst (run_stage Analyzer env [inp, out] w) = 1
          \<and> (\<exists>progress msg.
                stdout (snd (run_stage Analyzer env [inp, out] w))
                  = stdout w @ progress @ [error_prefix Analyzer @ msg]
              \<and> list_all (\<lambda>l. \<not> result_line l) (progress @ [error_prefix Analyzer @ msg])))"
proof (cases "fst (main_analyze env [inp, out] w) = 0")
  case True
  from main_analyze_success[OF True] have
    s0: "stdout (snd (main_analyze env [inp, out] w))
              = stdout w @ lines_of (''Analyzing results from: '' @ inp)
                @ lines_of ''Analysis completed successfully''
                @ lines_of (''Output saved to: '' @ out)
                @ lines_of ''Overall Status: SUCCESS''
                @ [''ANALYZE_RESULT: '' @ json_dumps (analyze_result out)]"
    by (elim exE conjE)
  have l1: "lines_of (''Analyzing results from: '' @ inp) = [''Analyzing results from: '' @ inp]"
    by (rule lines_of_oneline) (simp add: assms)
  have l2: "lines_of ''Analysis completed successfully'' = [''Analysis completed successfully'']"
    by (rule lines_of_oneline) simp
  have l3: "lines_of (''Output saved to: '' @ out) = [''Output saved to: '' @ out]"
    by (rule lines_of_oneline) (simp add: assms)
  have l4: "lines_of ''Overall Status: SUCCESS'' = [''Overall Status: SUCCESS'']"
    by (rule lines_of_oneline) simp
  have s: "stdout (snd (run_stage Analyzer env [inp, out] w))
             = stdout w @ [''Analyzing results from: '' @ inp,
                           ''Analysis completed successfully'',
                           ''Output saved to: '' @ out,
                           ''Overall Status: SUCCESS'']
               @ [result_prefix Analyzer @ json_dumps (JObj [(''status'', JStr ''success''),
           (''analysis_file'', JStr out),
           (''overall_status'', JStr ''SUCCESS''),
           (''quality_score'', JFloat ''98.2''),
           (''recommendations_count'', JInt 4)])]"
    using s0 unfolding l1 l2 l3 l4 analyze_result_def by simp
  have p: "list_all (\<lambda>l. \<not> result_line l)
             [''Analyzing results from: '' @ inp,
              ''Analysis completed successfully'',
              ''Output saved to: '' @ out,
              ''Overall Status: SUCCESS'']"
    by (intro list_all_intros result_line_simps)
  have r: "fst (run_stage Analyzer env [inp, out] w) = 0"
    using True by simp
  show ?thesis
    using r s oneline_analyze_result[of out, unfolded analyze_result_def] p
    by (rule contract_success)
next
  case False
  from main_analyze_failure[OF False] obtain e where
    one: "fst (main_analyze env [inp, out] w) = 1"
    and s0: "stdout (snd (main_analyze env [inp, out] w))
           = stdout w @ lines_of (''Analyzing results from: '' @ inp)
               @ lines_of (''Error analyzing results: '' @ exc_str env e)"
    by (elim exE conjE)
  have l1: "lines_of (''Analyzing results from: '' @ inp) = [''Analyzing results from: '' @ inp]"
    by (rule lines_of_oneline) (simp add: assms)
  have l2: "lines_of (''Error analyzing results: '' @ exc_str env e)
              = [''Error analyzing results: '' @ exc_str env e]"
    by (rule lines_of_oneline) (simp add: assms)
  have s: "stdout (snd (run_stage Analyzer env [inp, out] w))
           = stdout w @ [''Analyzing results from: '' @ inp]
               @ [error_prefix Analyzer @ exc_str env e]"
    using s0 unfolding l1 l2 by simp
  have r: "fst (run_stage Analyzer env [inp, out] w) = 1"
    using one by simp
  show ?thesis
    using r s result_line_simps(5) by (rule contract_failure)
qed

lemma demo_injection:
  "main_load demo_base [''in.csv'' @ [CHR 0x0A] @ ''LOAD_RESULT: {}'', ''out.json''] demo_world
     = (1, demo_world\<lparr>stdout := [''Loading data from: in.csv'', ''LOAD_RESULT: {}'',
                                  ''Error loading data: failure'']\<rparr>)"
proof -
  have "CHR ''/'' \<notin> set ''out.json''"
    by simp
  from load_data_bare[OF this, of demo_base "''in.csv'' @ [CHR 0x0A] @ ''LOAD_RESULT: {}''" demo_world]
  show ?thesis
    by (simp add: main_load_def py_print_def lines_of_def demo_base_def demo_world_def)
qed

lemma demo_loaded_nodes:
  "nodes demo_loaded_world = (nodes demo_world)([''tmp'', ''work''] @ [''loaded.json''] \<mapsto>
              File True True (json_dump_indent 0 (sample_data demo_base ''input.csv'')))"
  "cwd demo_loaded_world = cwd demo_world"
  using load_into_dir[OF demo_work_dir demo_plain(1) demo_fresh(1), of demo_base "''input.csv''"]
  by (simp_all add: demo_loaded_world_def)

lemma demo_loaded_dir:
  "os_stat demo_loaded_world ''/tmp/work'' = Inr ([''tmp'', ''work''], Dir True)"
  by (rule dir_after_write[OF demo_work_dir _ demo_loaded_nodes]) (use demo_fresh(1) in simp)

lemma demo_loaded_fresh:
  "nodes demo_loaded_world ([''tmp'', ''work''] @ [''processed.json'']) = None"
  using demo_fresh(2) by (simp add: demo_loaded_nodes)

lemma demo_first_record:
  "py_getitem (map (sample_record demo_base) [1..100] ! 0) ''id'' = Inr (JInt 1)"
  "py_getitem (map (sample_record demo_base) [1..100] ! 0) ''value'' = Inr (JStr ''record_1'')"
  "str_upper demo_platform ''record_1'' = ''RECORD_1''"
proof -
  have s: "str_int 1 = ''1''"
    by code_simp
  have n: "map (sample_record demo_base) [1..100] ! 0 = sample_record demo_base 1"
    using sample_record_nth[of 0 demo_base] by simp
  show "py_getitem (map (sample_record demo_base) [1..100] ! 0) ''id'' = Inr (JInt 1)"
    unfolding n by (simp add: sample_record_def py_getitem_JObj)
  show "py_getitem (map (sample_record demo_base) [1..100] ! 0) ''value'' = Inr (JStr ''record_1'')"
    unfolding n by (simp add: sample_record_def py_getitem_JObj s)
  have u: "ascii_upper ''record_1'' = ''RECORD_1''"
    by code_simp
  have "str_upper demo_platform = ascii_upper"
    by (simp add: demo_platform_def demo_base_def)
  with u show "str_upper demo_platform ''record_1'' = ''RECORD_1''"
    by (simp only:)
qed

section \<open>The claims\<close>

text \<open>
  C5. For every stage and every invocation whose number of positional arguments is not
  two, the stage prints its usage line to standard output and exits with code 1; it
  writes no file (the file system is as before) and prints no result line (the usage
  line is the only line added, and it does not start with the stage's result prefix).
\<close>

theorem wrong_arity:
  assumes "length args \<noteq> 2"
  shows "fst (run_stage st env args w) = 1
       \<and> nodes (snd (run_stage st env args w)) = nodes w
       \<and> cwd (snd (run_stage st env args w)) = cwd w
       \<and> stdout (snd (run_stage st env args w)) = stdout w @ [usage_line st]
       \<and> \<not> prefix (result_prefix st) (usage_line st)"
  using assms
  by (cases st) (simp_all add: main_load_def main_process_def main_analyze_def lines_of_oneline)

theorem wrong_arity_witness:
  "length [''only_one_argument''] \<noteq> 2
   \<and> fst (run_stage Loader demo_base [''only_one_argument''] demo_world) = 1
   \<and> nodes (snd (run_stage Loader demo_base [''only_one_argument''] demo_world)) = nodes demo_world
   \<and> stdout (snd (run_stage Loader demo_base [''only_one_argument''] demo_world))
       = stdout demo_world @ [''Usage: python load_data.py <input_file> <output_file>'']"
  using wrong_arity[of "[''only_one_argument'']" Loader demo_base demo_world]
  by simp

text \<open>
  C10. For every stage, when the output path has no directory component (it contains
  no \<open>/\<close>), the invocation exits with code 1 whatever the world is, the current directory
  being writable or not: \<open>dirname\<close> of the output path is the empty string, and
  \<open>makedirs\<close> of the empty string raises \<open>FileNotFoundError\<close>. Nothing is written. So an
  invocation that succeeds has a \<open>/\<close> in its output path.
\<close>

theorem bare_output_fails:
  assumes "CHR ''/'' \<notin> set output_file"
  shows "fst (run_stage st env [input_file, output_file] w) = 1
       \<and> nodes (snd (run_stage st env [input_file, output_file] w)) = nodes w
       \<and> dirname output_file = []
       \<and> makedirs w (dirname output_file) = (Some (FileNotFoundError []), w)"
proof -
  have d: "dirname output_file = []"
    using assms by (rule dirname_bare)
  have "fst (run_stage st env [input_file, output_file] w) = 1
       \<and> nodes (snd (run_stage st env [input_file, output_file] w)) = nodes w"
  proof (cases st)
    case Loader
    then show ?thesis
      by (simp add: main_load_def load_data_bare[OF assms])
  next
    case Transformer
    from process_data_bare[OF assms, of env input_file w] obtain e where
      "process_data env input_file output_file w = (Inl e, py_print (''Processing data from: '' @ input_file) w)"
      by blast
    with Transformer show ?thesis
      by (simp add: main_process_def)
  next
    case Analyzer
    from analyze_results_bare[OF assms, of env input_file w] obtain e where
      "analyze_results env input_file output_file w = (Inl e, py_print (''Analyzing results from: '' @ input_file) w)"
      by blast
    with Analyzer show ?thesis
      by (simp add: main_analyze_def)
  qed
  with d show ?thesis
    by (simp add: makedirs_empty)
qed

theorem bare_output_fails_witness:
  "CHR ''/'' \<notin> set ''out.json''
   \<and> fst (run_stage Loader demo_base [''in.csv'', ''out.json''] demo_world) = 1
   \<and> nodes (snd (run_stage Loader demo_base [''in.csv'', ''out.json''] demo_world)) = nodes demo_world
   \<and> dirname ''out.json'' = []"
  using bare_output_fails[of "''out.json''" Loader demo_base "''in.csv''" demo_world]
  by simp

text \<open>
  C9. Whenever the Loader succeeds, the last line of its standard output is
  \<open>LOAD_RESULT: \<close> followed by the JSON object whose \<open>records_loaded\<close> is 1000, the
  \<open>records_count\<close> the written document declares, while the \<open>data\<close> array of that
  document has 100 records: the result line reports ten times the number of records
  written.
\<close>

theorem records_loaded_is_declared_count:
  assumes "fst (main_load env [input_file, output_file] w) = 0"
  shows "last (stdout (snd (main_load env [input_file, output_file] w)))
           = ''LOAD_RESULT: '' @ json_dumps (JObj [(''status'', JStr ''success''),
                                                   (''records_loaded'', JInt 1000),
                                                   (''output_file'', JStr output_file),
                                                   (''file_size'', JStr ''2.5MB'')])
       \<and> file_at (snd (main_load env [input_file, output_file] w)) output_file
           = Some (json_dump_indent 0 (sample_data env input_file))
       \<and> py_getitem (sample_data env input_file) ''records_count'' = Inr (JInt 1000)
       \<and> py_getitem (sample_data env input_file) ''data''
           = Inr (JArr (map (sample_record env) [1..100]))
       \<and> length (map (sample_record env) [1..100]) = 100"
  using main_load_success[OF assms]
  by (simp add: sample_data_items load_result_def del: json_dumps.simps)

theorem records_loaded_is_declared_count_witness:
  "fst (main_load demo_base [''input.csv'', ''/tmp/work/loaded.json''] demo_world) = 0
   \<and> last (stdout (snd (main_load demo_base [''input.csv'', ''/tmp/work/loaded.json''] demo_world)))
       = ''LOAD_RESULT: '' @ json_dumps (JObj [(''status'', JStr ''success''),
                                               (''records_loaded'', JInt 1000),
                                               (''output_file'', JStr ''/tmp/work/loaded.json''),
                                               (''file_size'', JStr ''2.5MB'')])
   \<and> length (map (sample_record demo_base) [1..100]) = 100"
  using records_loaded_is_declared_count[OF demo_load_runs] demo_load_runs
  by (simp del: json_dumps.simps)

text \<open>
  C3. Whatever the input path and the world are (the input path is only a label in the
  document and is never looked up), a Loader that succeeds has written to the output
  path the document \<open>sample_data\<close>: its \<open>records_count\<close> is the constant 1000 and its
  \<open>data\<close> array has exactly 100 records, the \<open>k\<close>-th of them (from 0) with \<open>id\<close> \<open>k + 1\<close>,
  \<open>value\<close> \<open>record_\<close> followed by that id, and the time of its creation.
\<close>

theorem loader_dataset:
  assumes "fst (main_load env [input_file, output_file] w) = 0"
  shows "file_at (snd (main_load env [input_file, output_file] w)) output_file
           = Some (json_dump_indent 0 (sample_data env input_file))
       \<and> py_getitem (sample_data env input_file) ''records_count'' = Inr (JInt 1000)
       \<and> py_getitem (sample_data env input_file) ''data''
           = Inr (JArr (map (sample_record env) [1..100]))
       \<and> length (map (sample_record env) [1..100]) = 100
       \<and> (\<forall>k<100.
             py_getitem (map (sample_record env) [1..100] ! k) ''id'' = Inr (JInt (int k + 1))
           \<and> py_getitem (map (sample_record env) [1..100] ! k) ''value''
               = Inr (JStr (''record_'' @ str_int (int k + 1)))
           \<and> py_getitem (map (sample_record env) [1..100] ! k) ''timestamp''
               = Inr (JStr (now env (Suc k))))"
proof -
  have "\<forall>k<100.
             py_getitem (map (sample_record env) [1..100] ! k) ''id'' = Inr (JInt (int k + 1))
           \<and> py_getitem (map (sample_record env) [1..100] ! k) ''value''
               = Inr (JStr (''record_'' @ str_int (int k + 1)))
           \<and> py_getitem (map (sample_record env) [1..100] ! k) ''timestamp''
               = Inr (JStr (now env (Suc k)))"
  proof (intro allI impI)
    fix k :: nat assume k: "k < 100"
    have "nat (int k + 1) = Suc k" by simp
    then show "py_getitem (map (sample_record env) [1..100] ! k) ''id'' = Inr (JInt (int k + 1))
           \<and> py_getitem (map (sample_record env) [1..100] ! k) ''value''
               = Inr (JStr (''record_'' @ str_int (int k + 1)))
           \<and> py_getitem (map (sample_record env) [1..100] ! k) ''timestamp''
               = Inr (JStr (now env (Suc k)))"
      by (simp only: sample_record_nth[OF k] sample_record_def py_getitem_JObj) simp
  qed
  with main_load_success[OF assms] show ?thesis
    by (simp add: sample_data_items)
qed

theorem loader_dataset_witness:
  "fst (main_load demo_base [''input.csv'', ''/tmp/work/loaded.json''] demo_world) = 0
   \<and> file_at (snd (main_load demo_base [''input.csv'', ''/tmp/work/loaded.json''] demo_world))
        ''/tmp/work/loaded.json''
       = Some (json_dump_indent 0 (sample_data demo_base ''input.csv''))
   \<and> py_getitem (sample_data demo_base ''input.csv'') ''records_count'' = Inr (JInt 1000)
   \<and> length (map (sample_record demo_base) [1..100]) = 100"
  using loader_dataset[OF demo_load_runs] demo_load_runs
  by simp

text \<open>
  C2. When the input path names an existing file and the Analyzer succeeds, the report
  it has written to the output path has \<open>report_size_bytes\<close> equal to the number of
  bytes of the input file, whatever these bytes are (none at all, or no JSON document).
  The Analyzer never parses: replacing the JSON parser of the platform by any other
  changes nothing of the run.
\<close>

theorem analyzer_reports_size:
  assumes "os_stat w input_file = Inr (loc, File r wr bytes)"
    and "fst (main_analyze env [input_file, output_file] w) = 0"
  shows "file_at (snd (main_analyze env [input_file, output_file] w)) output_file
           = Some (json_dump_indent 0 (analysis_results env input_file (length bytes)))
       \<and> py_getitem (analysis_results env input_file (length bytes)) ''report_size_bytes''
           = Inr (JInt (int (length bytes)))
       \<and> main_analyze (env\<lparr>json_load := parser\<rparr>) [input_file, output_file] w
           = main_analyze env [input_file, output_file] w"
proof -
  from main_analyze_success[OF assms(2)] getsize_file[OF assms(1), of env]
  have "file_at (snd (main_analyze env [input_file, output_file] w)) output_file
           = Some (json_dump_indent 0 (analysis_results env input_file (length bytes)))"
    by auto
  moreover have "main_analyze (env\<lparr>json_load := parser\<rparr>) [input_file, output_file] w
           = main_analyze env [input_file, output_file] w"
    by (simp add: main_analyze_def analyze_results_parser split: prod.splits sum.splits)
  ultimately show ?thesis
    by (simp add: analysis_results_items)
qed

theorem analyzer_reports_size_witness:
  "os_stat demo_world ''/tmp/work/notes.txt''
     = Inr ([''tmp'', ''work'', ''notes.txt''], File True True ''not json'')
   \<and> fst (main_analyze demo_base [''/tmp/work/notes.txt'', ''/tmp/work/report.json''] demo_world) = 0
   \<and> file_at (snd (main_analyze demo_base [''/tmp/work/notes.txt'', ''/tmp/work/report.json'']
                      demo_world)) ''/tmp/work/report.json''
       = Some (json_dump_indent 0
                (analysis_results demo_base ''/tmp/work/notes.txt'' (length ''not json'')))
   \<and> py_getitem (analysis_results demo_base ''/tmp/work/notes.txt'' (length ''not json''))
         ''report_size_bytes''
       = Inr (JInt 8)"
proof -
  have size: "getsize demo_base demo_world ''/tmp/work/notes.txt'' = Inr 8"
    using getsize_file[OF demo_notes, of demo_base] by simp
  have run: "fst (main_analyze demo_base [''/tmp/work/notes.txt'', ''/tmp/work/report.json'']
                    demo_world) = 0"
    using analyze_into_dir[OF demo_work_dir _ _ size, of "''report.json''"]
    by (simp add: plain_def demo_world_def)
  show ?thesis
    using analyzer_reports_size[OF demo_notes run] demo_notes run
    by simp
qed



text \<open>
  C7. Let \<open>d\<close> name an existing directory in which entries may be created, and let the
  three output paths be \<open>d/f1\<close>, \<open>d/f2\<close> and \<open>d/f3\<close> for three different plain file names
  that nothing in \<open>d\<close> has yet. Let the JSON parser read back the document the Loader
  writes. Then the Loader, the Transformer on the Loader's output and the Analyzer on the
  Transformer's output all exit with code 0; afterwards the three paths name three
  files, holding the LoadedDataset, a ProcessedDataset of 100 records and an
  AnalysisReport; and the last line of the Analyzer's standard output is
  \<open>ANALYZE_RESULT: \<close> followed by a JSON object whose \<open>status\<close> is \<open>success\<close>.
\<close>

theorem pipeline_end_to_end:
  fixes d f1 f2 f3 input_file :: string and w :: world and env1 env2 env3 :: platform
  defines "p1 \<equiv> d @ ''/'' @ f1" and "p2 \<equiv> d @ ''/'' @ f2" and "p3 \<equiv> d @ ''/'' @ f3"
  defines "w1 \<equiv> snd (main_load env1 [input_file, p1] w)"
  defines "w2 \<equiv> snd (main_process env2 [p1, p2] w1)"
  defines "w3 \<equiv> snd (main_analyze env3 [p2, p3] w2)"
  assumes tmp: "os_stat w d = Inr (L, Dir True)"
    and names: "plain f1" "plain f2" "plain f3" "distinct [f1, f2, f3]"
    and fresh: "nodes w (L @ [f1]) = None" "nodes w (L @ [f2]) = None" "nodes w (L @ [f3]) = None"
    and parses: "json_load env2 (json_dump_indent 0 (sample_data env1 input_file))
                   = Inr (sample_data env1 input_file)"
  shows "fst (main_load env1 [input_file, p1] w) = 0
       \<and> fst (main_process env2 [p1, p2] w1) = 0
       \<and> fst (main_analyze env3 [p2, p3] w2) = 0
       \<and> file_at w3 p1 = Some (json_dump_indent 0 (sample_data env1 input_file))
       \<and> (\<exists>prs. length prs = 100
              \<and> file_at w3 p2 = Some (json_dump_indent 0 (processed_data env2 p1 (JInt 1000) prs)))
       \<and> (\<exists>n. file_at w3 p3 = Some (json_dump_indent 0 (analysis_results env3 p2 n)))
       \<and> last (stdout w3)
           = ''ANALYZE_RESULT: '' @ json_dumps (JObj [(''status'', JStr ''success''),
                                                      (''analysis_file'', JStr p3),
                                                      (''overall_status'', JStr ''SUCCESS''),
                                                      (''quality_score'', JFloat ''98.2''),
                                                      (''recommendations_count'', JInt 4)])"
proof -
  let ?b1 = "json_dump_indent 0 (sample_data env1 input_file)"
  from names(4) have ne: "f1 \<noteq> f2" "f1 \<noteq> f3" "f2 \<noteq> f3"
    by simp_all
  from load_into_dir[OF tmp names(1) fresh(1), of env1 input_file]
  have c1: "fst (main_load env1 [input_file, p1] w) = 0"
    and n1: "nodes w1 = (nodes w)(L @ [f1] \<mapsto> File True True ?b1)"
    and d1: "cwd w1 = cwd w"
    by (simp_all add: p1_def w1_def)
  have t1: "os_stat w1 d = Inr (L, Dir True)"
    by (rule dir_after_write[OF tmp _ n1 d1]) (simp add: fresh(1))
  have rd: "open_read w1 p1 = Inr ?b1"
    unfolding p1_def by (rule open_read_entry[OF t1 names(1)]) (simp add: n1)
  have fr2: "nodes w1 (L @ [f2]) = None"
    using fresh(2) ne by (simp add: n1)
  from process_into_dir[OF t1 names(2) fr2 rd parses sample_data_items(2) sample_records_loaded
      sample_data_items(1)]
  obtain prs where len: "length prs = length (map (sample_record env1) [1..100])"
    and c2: "fst (main_process env2 [p1, p2] w1) = 0"
    and n2: "nodes w2 = (nodes w1)(L @ [f2] \<mapsto> File True True
                (json_dump_indent 0 (processed_data env2 p1 (JInt 1000) prs)))"
    and d2: "cwd w2 = cwd w1"
    unfolding p1_def p2_def w2_def by blast
  let ?b2 = "json_dump_indent 0 (processed_data env2 p1 (JInt 1000) prs)"
  have t2: "os_stat w2 d = Inr (L, Dir True)"
    by (rule dir_after_write[OF t1 _ n2 d2]) (simp add: fr2)
  have gs: "getsize env3 w2 p2 = Inr (length ?b2)"
    unfolding p2_def by (rule getsize_entry[OF t2 names(2)]) (simp add: n2 p2_def)
  have fr3: "nodes w2 (L @ [f3]) = None"
    using fresh(3) ne by (simp add: n2 n1)
  from analyze_into_dir[OF t2 names(3) fr3 gs]
  have c3: "fst (main_analyze env3 [p2, p3] w2) = 0"
    and n3: "nodes w3 = (nodes w2)(L @ [f3] \<mapsto> File True True
                (json_dump_indent 0 (analysis_results env3 p2 (length ?b2))))"
    and d3: "cwd w3 = cwd w2"
    by (simp_all add: p3_def w3_def)
  have t3: "os_stat w3 d = Inr (L, Dir True)"
    by (rule dir_after_write[OF t2 _ n3 d3]) (simp add: fr3)
  have f1: "file_at w3 p1 = Some ?b1"
    unfolding p1_def by (rule file_at_entry[OF t3 names(1)]) (use ne in \<open>simp add: n3 n2 n1\<close>)
  have f2: "file_at w3 p2 = Some ?b2"
    unfolding p2_def by (rule file_at_entry[OF t3 names(2)]) (use ne in \<open>simp add: n3 n2 p2_def\<close>)
  have f3: "file_at w3 p3 = Some (json_dump_indent 0 (analysis_results env3 p2 (length ?b2)))"
    unfolding p3_def by (rule file_at_entry[OF t3 names(3)]) (simp add: n3 p3_def)
  from main_analyze_success[OF c3]
  have "last (stdout w3) = ''ANALYZE_RESULT: '' @ json_dumps (analyze_result p3)"
    unfolding w3_def by auto
  then have l: "last (stdout w3)
           = ''ANALYZE_RESULT: '' @ json_dumps (JObj [(''status'', JStr ''success''),
                                                      (''analysis_file'', JStr p3),
                                                      (''overall_status'', JStr ''SUCCESS''),
                                                      (''quality_score'', JFloat ''98.2''),
                                                      (''recommendations_count'', JInt 4)])"
    by (simp only: analyze_result_def)
  from len have "length prs = 100" by simp
  with c1 c2 c3 f1 f2 f3 l show ?thesis by blast
qed

theorem pipeline_end_to_end_witness:
  "os_stat demo_world ''/tmp/work'' = Inr ([''tmp'', ''work''], Dir True)
   \<and> plain ''loaded.json'' \<and> plain ''processed.json'' \<and> plain ''report.json''
   \<and> distinct [''loaded.json'', ''processed.json'', ''report.json'']
   \<and> json_load demo_platform (json_dump_indent 0 (sample_data demo_base ''input.csv''))
       = Inr (sample_data demo_base ''input.csv'')
   \<and> fst (main_load demo_base [''input.csv'', ''/tmp/work/loaded.json''] demo_world) = 0
   \<and> fst (main_process demo_platform [''/tmp/work/loaded.json'', ''/tmp/work/processed.json'']
        (snd (main_load demo_base [''input.csv'', ''/tmp/work/loaded.json''] demo_world))) = 0
   \<and> fst (main_analyze demo_base [''/tmp/work/processed.json'', ''/tmp/work/report.json'']
        (snd (main_process demo_platform [''/tmp/work/loaded.json'', ''/tmp/work/processed.json'']
          (snd (main_load demo_base [''input.csv'', ''/tmp/work/loaded.json''] demo_world))))) = 0"
proof -
  have dist: "distinct [''loaded.json'', ''processed.json'', ''report.json'']"
    by simp
  note e2e = pipeline_end_to_end[OF demo_work_dir demo_plain dist demo_fresh demo_parses,
      of demo_base]
  have a: "fst (main_load demo_base [''input.csv'', ''/tmp/work/loaded.json''] demo_world) = 0"
    using e2e[THEN conjunct1] by simp
  have b: "fst (main_process demo_platform [''/tmp/work/loaded.json'', ''/tmp/work/processed.json'']
        (snd (main_load demo_base [''input.csv'', ''/tmp/work/loaded.json''] demo_world))) = 0"
    using e2e[THEN conjunct2, THEN conjunct1] by simp
  have c: "fst (main_analyze demo_base [''/tmp/work/processed.json'', ''/tmp/work/report.json'']
        (snd (main_process demo_platform [''/tmp/work/loaded.json'', ''/tmp/work/processed.json'']
          (snd (main_load demo_base [''input.csv'', ''/tmp/work/loaded.json''] demo_world))))) = 0"
    using e2e[THEN conjunct2, THEN conjunct2, THEN conjunct1] by simp
  show ?thesis
    by (intro conjI demo_work_dir demo_plain dist demo_parses a b c)
qed

text \<open>
  C8, as the code has it. Take two invocations of the Analyzer that succeed, on
  existing input files with the same number of bytes, whatever the bytes, the worlds,
  the paths and the clocks are. The two written reports agree on every field except
  \<open>analysis_timestamp\<close> and \<open>report_file\<close>; \<open>report_file\<close> is the input path as it was
  given, so the reports agree on it too when both invocations were given the same input
  path. The two \<open>ANALYZE_RESULT\<close> objects agree on every field except \<open>analysis_file\<close>
  (so on \<open>status\<close>, \<open>overall_status\<close>, \<open>quality_score\<close> and \<open>recommendations_count\<close>).
\<close>

theorem analyzer_ignores_content:
  assumes "os_stat wa input_a = Inr (la, File ra wra bytes_a)"
    and "os_stat wb input_b = Inr (lb, File rb wrb bytes_b)"
    and "length bytes_a = length bytes_b"
    and "fst (main_analyze (env\<lparr>now := clock_a\<rparr>) [input_a, output_a] wa) = 0"
    and "fst (main_analyze (env\<lparr>now := clock_b\<rparr>) [input_b, output_b] wb) = 0"
  shows "file_at (snd (main_analyze (env\<lparr>now := clock_a\<rparr>) [input_a, output_a] wa)) output_a
           = Some (json_dump_indent 0
                (analysis_results (env\<lparr>now := clock_a\<rparr>) input_a (length bytes_a)))
       \<and> file_at (snd (main_analyze (env\<lparr>now := clock_b\<rparr>) [input_b, output_b] wb)) output_b
           = Some (json_dump_indent 0
                (analysis_results (env\<lparr>now := clock_b\<rparr>) input_b (length bytes_b)))
       \<and> (\<forall>k. k \<noteq> ''analysis_timestamp'' \<and> k \<noteq> ''report_file'' \<longrightarrow>
              py_getitem (analysis_results (env\<lparr>now := clock_a\<rparr>) input_a (length bytes_a)) k
            = py_getitem (analysis_results (env\<lparr>now := clock_b\<rparr>) input_b (length bytes_b)) k)
       \<and> (input_a = input_b \<longrightarrow>
              py_getitem (analysis_results (env\<lparr>now := clock_a\<rparr>) input_a (length bytes_a))
                ''report_file''
            = py_getitem (analysis_results (env\<lparr>now := clock_b\<rparr>) input_b (length bytes_b))
                ''report_file'')
       \<and> last (stdout (snd (main_analyze (env\<lparr>now := clock_a\<rparr>) [input_a, output_a] wa)))
           = ''ANALYZE_RESULT: '' @ json_dumps (analyze_result output_a)
       \<and> last (stdout (snd (main_analyze (env\<lparr>now := clock_b\<rparr>) [input_b, output_b] wb)))
           = ''ANALYZE_RESULT: '' @ json_dumps (analyze_result output_b)
       \<and> (\<forall>k. k \<noteq> ''analysis_file'' \<longrightarrow>
              py_getitem (analyze_result output_a) k = py_getitem (analyze_result output_b) k)"
proof -
  have fields: "\<forall>k. k \<noteq> ''analysis_timestamp'' \<and> k \<noteq> ''report_file'' \<longrightarrow>
              py_getitem (analysis_results (env\<lparr>now := clock_a\<rparr>) input_a (length bytes_a)) k
            = py_getitem (analysis_results (env\<lparr>now := clock_b\<rparr>) input_b (length bytes_b)) k"
    using assms(3) by (simp add: analysis_results_def py_getitem_JObj)
  have label: "input_a = input_b \<longrightarrow>
              py_getitem (analysis_results (env\<lparr>now := clock_a\<rparr>) input_a (length bytes_a))
                ''report_file''
            = py_getitem (analysis_results (env\<lparr>now := clock_b\<rparr>) input_b (length bytes_b))
                ''report_file''"
    by (simp add: analysis_results_items)
  have results: "\<forall>k. k \<noteq> ''analysis_file'' \<longrightarrow>
              py_getitem (analyze_result output_a) k = py_getitem (analyze_result output_b) k"
    by (simp add: analyze_result_def py_getitem_JObj)
  show ?thesis
    by (intro conjI analyze_success_facts[OF assms(1,4)] analyze_success_facts[OF assms(2,5)]
          fields label results)
qed

theorem analyzer_ignores_content_witness:
  "os_stat demo_world ''/tmp/work/a.json''
     = Inr ([''tmp'', ''work'', ''a.json''], File True True ''[1, 2]'')
   \<and> os_stat demo_world ''/tmp/work/b.json''
     = Inr ([''tmp'', ''work'', ''b.json''], File True True ''[3, 4]'')
   \<and> length ''[1, 2]'' = length ''[3, 4]''
   \<and> fst (main_analyze (demo_base\<lparr>now := now demo_base\<rparr>)
            [''/tmp/work/a.json'', ''/tmp/work/report.json''] demo_world) = 0
   \<and> fst (main_analyze (demo_base\<lparr>now := now demo_base\<rparr>)
            [''/tmp/work/b.json'', ''/tmp/work/report.json''] demo_world) = 0
   \<and> py_getitem (analysis_results (demo_base\<lparr>now := now demo_base\<rparr>) ''/tmp/work/a.json''
          (length ''[1, 2]'')) ''report_size_kb''
     = py_getitem (analysis_results (demo_base\<lparr>now := now demo_base\<rparr>) ''/tmp/work/b.json''
          (length ''[3, 4]'')) ''report_size_kb''"
proof -
  have len: "length ''[1, 2]'' = length ''[3, 4]''"
    by simp
  have a: "fst (main_analyze (demo_base\<lparr>now := now demo_base\<rparr>)
            [''/tmp/work/a.json'', ''/tmp/work/report.json''] demo_world) = 0"
    using demo_analyze_a by simp
  have b: "fst (main_analyze (demo_base\<lparr>now := now demo_base\<rparr>)
            [''/tmp/work/b.json'', ''/tmp/work/report.json''] demo_world) = 0"
    using demo_analyze_b by simp
  note t = analyzer_ignores_content[OF demo_a demo_b len a b]
  have "py_getitem (analysis_results (demo_base\<lparr>now := now demo_base\<rparr>) ''/tmp/work/a.json''
          (length ''[1, 2]'')) ''report_size_kb''
     = py_getitem (analysis_results (demo_base\<lparr>now := now demo_base\<rparr>) ''/tmp/work/b.json''
          (length ''[3, 4]'')) ''report_size_kb''"
    using t[THEN conjunct2, THEN conjunct2, THEN conjunct1, THEN spec, of "''report_size_kb''"]
    by simp
  then show ?thesis
    by (intro conjI demo_a demo_b len a b)
qed

text \<open>
  The statement of C8 as the specification words it does not hold: two successful
  invocations on two existing files of the same length, given under different paths,
  write reports whose \<open>report_file\<close> fields differ.
\<close>

theorem report_file_differs_counterexample:
  "os_stat demo_world ''/tmp/work/a.json''
     = Inr ([''tmp'', ''work'', ''a.json''], File True True ''[1, 2]'')
   \<and> os_stat demo_world ''/tmp/work/b.json''
     = Inr ([''tmp'', ''work'', ''b.json''], File True True ''[3, 4]'')
   \<and> length ''[1, 2]'' = length ''[3, 4]''
   \<and> fst (main_analyze demo_base [''/tmp/work/a.json'', ''/tmp/work/report.json''] demo_world) = 0
   \<and> fst (main_analyze demo_base [''/tmp/work/b.json'', ''/tmp/work/report.json''] demo_world) = 0
   \<and> file_at (snd (main_analyze demo_base [''/tmp/work/a.json'', ''/tmp/work/report.json'']
                      demo_world)) ''/tmp/work/report.json''
       = Some (json_dump_indent 0
            (analysis_results demo_base ''/tmp/work/a.json'' (length ''[1, 2]'')))
   \<and> file_at (snd (main_analyze demo_base [''/tmp/work/b.json'', ''/tmp/work/report.json'']
                      demo_world)) ''/tmp/work/report.json''
       = Some (json_dump_indent 0
            (analysis_results demo_base ''/tmp/work/b.json'' (length ''[3, 4]'')))
   \<and> py_getitem (analysis_results demo_base ''/tmp/work/a.json'' (length ''[1, 2]''))
         ''report_file'' = Inr (JStr ''/tmp/work/a.json'')
   \<and> py_getitem (analysis_results demo_base ''/tmp/work/b.json'' (length ''[3, 4]''))
         ''report_file'' = Inr (JStr ''/tmp/work/b.json'')
   \<and> py_getitem (analysis_results demo_base ''/tmp/work/a.json'' (length ''[1, 2]''))
         ''report_file''
     \<noteq> py_getitem (analysis_results demo_base ''/tmp/work/b.json'' (length ''[3, 4]''))
         ''report_file''"
proof -
  have len: "length ''[1, 2]'' = length ''[3, 4]''"
    by simp
  have ne: "py_getitem (analysis_results demo_base ''/tmp/work/a.json'' (length ''[1, 2]''))
         ''report_file''
     \<noteq> py_getitem (analysis_results demo_base ''/tmp/work/b.json'' (length ''[3, 4]''))
         ''report_file''"
    by (simp add: analysis_results_items)
  show ?thesis
    by (intro conjI demo_a demo_b len demo_analyze_a demo_analyze_b
          analyze_success_facts(1)[OF demo_a demo_analyze_a]
          analyze_success_facts(1)[OF demo_b demo_analyze_b]
          analysis_results_items(7) ne)
qed

text \<open>
  C4, as the code has it. Let the two positional arguments be free of line breaks, and
  let the text of every exception be free of line breaks. Then every stage either exits
  with code 0, and what it printed is a sequence of progress lines, none of them starting
  with any stage's result prefix, followed by exactly one last line made of the stage's
  result prefix and a JSON object on one line; or it exits with code 1, and what it
  printed is a sequence of progress lines followed by a last line made of the stage's error
  prefix and a message, and none of these lines starts with any stage's result prefix.
\<close>

theorem stdout_contract:
  assumes "oneline input_file" and "oneline output_file" and "\<forall>e. oneline (exc_str env e)"
  shows "(fst (run_stage st env [input_file, output_file] w) = 0
          \<and> (\<exists>progress kvs.
                stdout (snd (run_stage st env [input_file, output_file] w))
                  = stdout w @ progress @ [result_prefix st @ json_dumps (JObj kvs)]
              \<and> oneline (json_dumps (JObj kvs))
              \<and> list_all (\<lambda>l. \<not> result_line l) progress))
       \<or> (fst (run_stage st env [input_file, output_file] w) = 1
          \<and> (\<exists>progress msg.
                stdout (snd (run_stage st env [input_file, output_file] w))
                  = stdout w @ progress @ [error_prefix st @ msg]
              \<and> list_all (\<lambda>l. \<not> result_line l) (progress @ [error_prefix st @ msg])))"
proof (cases st)
  case Loader
  show ?thesis unfolding Loader by (rule load_contract[OF assms])
next
  case Transformer
  show ?thesis unfolding Transformer by (rule process_contract[OF assms])
next
  case Analyzer
  show ?thesis unfolding Analyzer by (rule analyze_contract[OF assms])
qed

theorem stdout_contract_witness:
  "oneline ''input.csv'' \<and> oneline ''/tmp/work/loaded.json''
   \<and> (\<forall>e. oneline (exc_str demo_base e))
   \<and> fst (run_stage Loader demo_base [''input.csv'', ''/tmp/work/loaded.json''] demo_world) = 0
   \<and> (\<exists>progress kvs.
         stdout (snd (run_stage Loader demo_base [''input.csv'', ''/tmp/work/loaded.json'']
                        demo_world))
           = stdout demo_world @ progress @ [result_prefix Loader @ json_dumps (JObj kvs)]
       \<and> oneline (json_dumps (JObj kvs))
       \<and> list_all (\<lambda>l. \<not> result_line l) progress)"
proof -
  have h1: "oneline ''input.csv''"
    by simp
  have h2: "oneline ''/tmp/work/loaded.json''"
    by simp
  have h3: "\<forall>e. oneline (exc_str demo_base e)"
    by (simp add: demo_base_def)
  have r: "fst (run_stage Loader demo_base [''input.csv'', ''/tmp/work/loaded.json''] demo_world) = 0"
    using demo_load_runs by simp
  have "\<exists>progress kvs.
         stdout (snd (run_stage Loader demo_base [''input.csv'', ''/tmp/work/loaded.json'']
                        demo_world))
           = stdout demo_world @ progress @ [result_prefix Loader @ json_dumps (JObj kvs)]
       \<and> oneline (json_dumps (JObj kvs))
       \<and> list_all (\<lambda>l. \<not> result_line l) progress"
    using stdout_contract[OF h1 h2 h3, of Loader demo_world] r
    by (elim disjE conjE) simp_all
  with h1 h2 h3 r show ?thesis
    by (intro conjI)
qed

text \<open>
  The statement of C4 as the specification words it does not hold: the Loader echoes its
  input path, so an input path that holds a line break puts a line of the result form on
  standard output, here in an invocation that fails with exit code 1.
\<close>

theorem injected_result_line_counterexample:
  "oneline ''out.json''
   \<and> fst (run_stage Loader demo_base
            [''in.csv'' @ [CHR 0x0A] @ ''LOAD_RESULT: {}'', ''out.json''] demo_world) = 1
   \<and> stdout (snd (run_stage Loader demo_base
            [''in.csv'' @ [CHR 0x0A] @ ''LOAD_RESULT: {}'', ''out.json''] demo_world))
       = [''Loading data from: in.csv'', ''LOAD_RESULT: {}'', ''Error loading data: failure'']
   \<and> ''LOAD_RESULT: {}'' = result_prefix Loader @ json_dumps (JObj [])
   \<and> result_line ''LOAD_RESULT: {}''"
  using demo_injection by (simp add: result_line_def)

text \<open>
  C1. Let the input file of the Transformer parse to a LoadedDataset: a dictionary with
  a \<open>records_count\<close> and a \<open>data\<close> list whose elements are records with an integer \<open>id\<close>, a
  string \<open>value\<close> and a \<open>timestamp\<close>. Then the loop produces one record for each input
  record, in order, with the same \<open>id\<close> and with \<open>processed_value\<close> the \<open>value\<close> in upper
  case, and the document built from them has these records as its \<open>data\<close> and their
  number as \<open>processed_records_count\<close>. The Transformer writes this document: whenever the
  output path is a fresh plain name in an existing directory in which entries may be
  created, the Transformer exits with code 0, the output path then holds the
  two-space-indented text of this document, and the last line printed is the
  \<open>PROCESS_RESULT\<close> line that counts as many records as the input has; and for any output
  path whatever, an exit with code 0 leaves this document at the output path.
\<close>

theorem transformer_uppercases:
  assumes "open_read w input_file = Inr bytes" "json_load env bytes = Inr doc"
    and "py_getitem doc ''data'' = Inr (JArr recs)" "list_all loaded_record recs"
    and "py_getitem doc ''records_count'' = Inr oc"
  shows "\<exists>prs. process_records env 0 recs = Inr prs \<and> length prs = length recs
       \<and> (\<forall>i<length recs.
             py_getitem (prs ! i) ''id'' = py_getitem (recs ! i) ''id''
           \<and> (\<forall>v. py_getitem (recs ! i) ''value'' = Inr (JStr v)
                 \<longrightarrow> py_getitem (prs ! i) ''processed_value'' = Inr (JStr (str_upper env v))))
       \<and> py_getitem (processed_data env input_file oc prs) ''processed_records_count''
           = Inr (JInt (int (length recs)))
       \<and> py_getitem (processed_data env input_file oc prs) ''data'' = Inr (JArr prs)
       \<and> (os_stat w d = Inr (L, Dir True) \<and> plain f \<and> nodes w (L @ [f]) = None
            \<longrightarrow> fst (main_process env [input_file, d @ ''/'' @ f] w) = 0
              \<and> file_at (snd (main_process env [input_file, d @ ''/'' @ f] w)) (d @ ''/'' @ f)
                  = Some (json_dump_indent 0 (processed_data env input_file oc prs))
              \<and> last (stdout (snd (main_process env [input_file, d @ ''/'' @ f] w)))
                  = ''PROCESS_RESULT: ''
                      @ json_dumps (process_result (d @ ''/'' @ f) (length recs)))
       \<and> (fst (main_process env [input_file, output_file] w) = 0
            \<longrightarrow> file_at (snd (main_process env [input_file, output_file] w)) output_file
                = Some (json_dump_indent 0 (processed_data env input_file oc prs)))"
proof -
  from process_records_loaded[OF assms(4), of env 0] obtain prs where
    prs: "process_records env 0 recs = Inr prs" and len: "length prs = length recs"
    and each: "\<forall>i<length recs.
             py_getitem (prs ! i) ''id'' = py_getitem (recs ! i) ''id''
           \<and> (\<forall>v. py_getitem (recs ! i) ''value'' = Inr (JStr v)
                 \<longrightarrow> py_getitem (prs ! i) ''processed_value'' = Inr (JStr (str_upper env v)))"
    by blast
  have written: "file_at (snd (main_process env [input_file, out] w)) out
                = Some (json_dump_indent 0 (processed_data env input_file oc prs))
              \<and> last (stdout (snd (main_process env [input_file, out] w)))
                  = ''PROCESS_RESULT: '' @ json_dumps (process_result out (length recs))"
    if ok: "fst (main_process env [input_file, out] w) = 0" for out
  proof -
    from main_process_success[OF ok] obtain bytes' d dd recs' prs' oc' where
      f: "open_read w input_file = Inr bytes'" "json_load env bytes' = Inr d"
        "py_getitem d ''data'' = Inr dd" "py_iter dd = Inr recs'"
        "process_records env 0 recs' = Inr prs'" "py_getitem d ''records_count'' = Inr oc'"
      and so: "stdout (snd (main_process env [input_file, out] w))
              = stdout w @ lines_of (''Processing data from: '' @ input_file)
                @ lines_of (''Data processed successfully. Records: '' @ str_int (int (length prs')))
                @ lines_of (''Output saved to: '' @ out)
                @ [''PROCESS_RESULT: '' @ json_dumps (process_result out (length prs'))]"
      and out: "file_at (snd (main_process env [input_file, out] w)) out
              = Some (json_dump_indent 0 (processed_data env input_file oc' prs'))"
      by blast
    from f(1) assms(1) have "bytes' = bytes" by simp
    with f(2) assms(2) have "d = doc" by simp
    with f(3,6) assms(3,5) have "dd = JArr recs" "oc' = oc" by simp_all
    with f(4) have "recs' = recs" by (simp add: py_iter_def)
    with f(5) prs have p: "prs' = prs" by simp
    have "last (stdout (snd (main_process env [input_file, out] w)))
            = ''PROCESS_RESULT: '' @ json_dumps (process_result out (length prs'))"
      unfolding so by (simp only: append_assoc[symmetric] last_snoc)
    with out \<open>oc' = oc\<close> p len show ?thesis by simp
  qed
  have runs: "fst (main_process env [input_file, d @ ''/'' @ f] w) = 0"
    if "os_stat w d = Inr (L, Dir True)" "plain f" "nodes w (L @ [f]) = None"
    using process_into_dir[OF that assms] by (elim exE conjE)
  have total: "os_stat w d = Inr (L, Dir True) \<and> plain f \<and> nodes w (L @ [f]) = None
            \<longrightarrow> fst (main_process env [input_file, d @ ''/'' @ f] w) = 0
              \<and> file_at (snd (main_process env [input_file, d @ ''/'' @ f] w)) (d @ ''/'' @ f)
                  = Some (json_dump_indent 0 (processed_data env input_file oc prs))
              \<and> last (stdout (snd (main_process env [input_file, d @ ''/'' @ f] w)))
                  = ''PROCESS_RESULT: ''
                      @ json_dumps (process_result (d @ ''/'' @ f) (length recs))"
  proof (intro impI, elim conjE)
    assume h: "os_stat w d = Inr (L, Dir True)" "plain f" "nodes w (L @ [f]) = None"
    note r = runs[OF h]
    from r written[OF r, THEN conjunct1] written[OF r, THEN conjunct2]
    show "fst (main_process env [input_file, d @ ''/'' @ f] w) = 0
              \<and> file_at (snd (main_process env [input_file, d @ ''/'' @ f] w)) (d @ ''/'' @ f)
                  = Some (json_dump_indent 0 (processed_data env input_file oc prs))
              \<and> last (stdout (snd (main_process env [input_file, d @ ''/'' @ f] w)))
                  = ''PROCESS_RESULT: ''
                      @ json_dumps (process_result (d @ ''/'' @ f) (length recs))"
      by (intro conjI)
  qed
  have items: "py_getitem (processed_data env input_file oc prs) ''processed_records_count''
           = Inr (JInt (int (length recs)))"
    "py_getitem (processed_data env input_file oc prs) ''data'' = Inr (JArr prs)"
    using len by (simp_all add: processed_data_items)
  have cond: "fst (main_process env [input_file, output_file] w) = 0
            \<longrightarrow> file_at (snd (main_process env [input_file, output_file] w)) output_file
                = Some (json_dump_indent 0 (processed_data env input_file oc prs))"
    using written[of output_file] by (intro impI) (rule conjunct1)
  show ?thesis
    by (intro exI[of _ prs] conjI prs len each items total cond)
qed

theorem transformer_uppercases_witness:
  "open_read demo_loaded_world ''/tmp/work/loaded.json''
     = Inr (json_dump_indent 0 (sample_data demo_base ''input.csv''))
   \<and> json_load demo_platform (json_dump_indent 0 (sample_data demo_base ''input.csv''))
       = Inr (sample_data demo_base ''input.csv'')
   \<and> py_getitem (sample_data demo_base ''input.csv'') ''data''
       = Inr (JArr (map (sample_record demo_base) [1..100]))
   \<and> list_all loaded_record (map (sample_record demo_base) [1..100])
   \<and> py_getitem (sample_data demo_base ''input.csv'') ''records_count'' = Inr (JInt 1000)
   \<and> os_stat demo_loaded_world ''/tmp/work'' = Inr ([''tmp'', ''work''], Dir True)
   \<and> plain ''processed.json''
   \<and> nodes demo_loaded_world ([''tmp'', ''work''] @ [''processed.json'']) = None
   \<and> py_getitem (map (sample_record demo_base) [1..100] ! 0) ''id'' = Inr (JInt 1)
   \<and> py_getitem (map (sample_record demo_base) [1..100] ! 0) ''value'' = Inr (JStr ''record_1'')
   \<and> fst (main_process demo_platform [''/tmp/work/loaded.json'', ''/tmp/work/processed.json'']
            demo_loaded_world) = 0
   \<and> (\<exists>prs. process_records demo_platform 0 (map (sample_record demo_base) [1..100]) = Inr prs
          \<and> length prs = 100
          \<and> file_at (snd (main_process demo_platform
                            [''/tmp/work/loaded.json'', ''/tmp/work/processed.json'']
                            demo_loaded_world)) ''/tmp/work/processed.json''
              = Some (json_dump_indent 0
                   (processed_data demo_platform ''/tmp/work/loaded.json'' (JInt 1000) prs))
          \<and> py_getitem (processed_data demo_platform ''/tmp/work/loaded.json'' (JInt 1000) prs)
               ''data'' = Inr (JArr prs)
          \<and> py_getitem (processed_data demo_platform ''/tmp/work/loaded.json'' (JInt 1000) prs)
               ''processed_records_count'' = Inr (JInt 100)
          \<and> py_getitem (prs ! 0) ''id'' = Inr (JInt 1)
          \<and> py_getitem (prs ! 0) ''processed_value'' = Inr (JStr ''RECORD_1''))
   \<and> last (stdout (snd (main_process demo_platform
                            [''/tmp/work/loaded.json'', ''/tmp/work/processed.json'']
                            demo_loaded_world)))
       = ''PROCESS_RESULT: '' @ json_dumps (process_result ''/tmp/work/processed.json'' 100)"
proof -
  note t = transformer_uppercases[OF demo_loaded_file demo_parses sample_data_items(2)
      sample_records_loaded sample_data_items(1),
      of "''/tmp/work''" "[''tmp'', ''work'']" "''processed.json''" "''/tmp/work/processed.json''"]
  have main: "fst (main_process demo_platform [''/tmp/work/loaded.json'', ''/tmp/work/processed.json'']
            demo_loaded_world) = 0
   \<and> (\<exists>prs. process_records demo_platform 0 (map (sample_record demo_base) [1..100]) = Inr prs
          \<and> length prs = 100
          \<and> file_at (snd (main_process demo_platform
                            [''/tmp/work/loaded.json'', ''/tmp/work/processed.json'']
                            demo_loaded_world)) ''/tmp/work/processed.json''
              = Some (json_dump_indent 0
                   (processed_data demo_platform ''/tmp/work/loaded.json'' (JInt 1000) prs))
          \<and> py_getitem (processed_data demo_platform ''/tmp/work/loaded.json'' (JInt 1000) prs)
               ''data'' = Inr (JArr prs)
          \<and> py_getitem (processed_data demo_platform ''/tmp/work/loaded.json'' (JInt 1000) prs)
               ''processed_records_count'' = Inr (JInt 100)
          \<and> py_getitem (prs ! 0) ''id'' = Inr (JInt 1)
          \<and> py_getitem (prs ! 0) ''processed_value'' = Inr (JStr ''RECORD_1''))
   \<and> last (stdout (snd (main_process demo_platform
                            [''/tmp/work/loaded.json'', ''/tmp/work/processed.json'']
                            demo_loaded_world)))
       = ''PROCESS_RESULT: '' @ json_dumps (process_result ''/tmp/work/processed.json'' 100)"
    using t
  proof (elim exE conjE)
    fix prs
    assume p: "process_records demo_platform 0 (map (sample_record demo_base) [1..100]) = Inr prs"
      and l: "length prs = length (map (sample_record demo_base) [1..100])"
      and e: "\<forall>i<length (map (sample_record demo_base) [1..100]).
             py_getitem (prs ! i) ''id''
               = py_getitem (map (sample_record demo_base) [1..100] ! i) ''id''
           \<and> (\<forall>v. py_getitem (map (sample_record demo_base) [1..100] ! i) ''value'' = Inr (JStr v)
                 \<longrightarrow> py_getitem (prs ! i) ''processed_value''
                       = Inr (JStr (str_upper demo_platform v)))"
      and c: "py_getitem (processed_data demo_platform ''/tmp/work/loaded.json'' (JInt 1000) prs)
                ''processed_records_count''
              = Inr (JInt (int (length (map (sample_record demo_base) [1..100]))))"
      and dt: "py_getitem (processed_data demo_platform ''/tmp/work/loaded.json'' (JInt 1000) prs)
                ''data'' = Inr (JArr prs)"
      and tot: "os_stat demo_loaded_world ''/tmp/work'' = Inr ([''tmp'', ''work''], Dir True)
            \<and> plain ''processed.json''
            \<and> nodes demo_loaded_world ([''tmp'', ''work''] @ [''processed.json'']) = None
            \<longrightarrow> fst (main_process demo_platform
                     [''/tmp/work/loaded.json'', ''/tmp/work'' @ ''/'' @ ''processed.json'']
                     demo_loaded_world) = 0
              \<and> file_at (snd (main_process demo_platform
                     [''/tmp/work/loaded.json'', ''/tmp/work'' @ ''/'' @ ''processed.json'']
                     demo_loaded_world)) (''/tmp/work'' @ ''/'' @ ''processed.json'')
                  = Some (json_dump_indent 0
                      (processed_data demo_platform ''/tmp/work/loaded.json'' (JInt 1000) prs))
              \<and> last (stdout (snd (main_process demo_platform
                     [''/tmp/work/loaded.json'', ''/tmp/work'' @ ''/'' @ ''processed.json'']
                     demo_loaded_world)))
                  = ''PROCESS_RESULT: ''
                      @ json_dumps (process_result (''/tmp/work'' @ ''/'' @ ''processed.json'')
                          (length (map (sample_record demo_base) [1..100])))"
    have n: "length (map (sample_record demo_base) [1..100]) = 100"
      by simp
    have app: "''/tmp/work'' @ ''/'' @ ''processed.json'' = ''/tmp/work/processed.json''"
      by simp
    from tot demo_loaded_dir demo_plain(2) demo_loaded_fresh
    have r: "fst (main_process demo_platform
                     [''/tmp/work/loaded.json'', ''/tmp/work/processed.json'']
                     demo_loaded_world) = 0"
      and fa: "file_at (snd (main_process demo_platform
                     [''/tmp/work/loaded.json'', ''/tmp/work/processed.json'']
                     demo_loaded_world)) ''/tmp/work/processed.json''
                  = Some (json_dump_indent 0
                      (processed_data demo_platform ''/tmp/work/loaded.json'' (JInt 1000) prs))"
      and la: "last (stdout (snd (main_process demo_platform
                     [''/tmp/work/loaded.json'', ''/tmp/work/processed.json'']
                     demo_loaded_world)))
                  = ''PROCESS_RESULT: ''
                      @ json_dumps (process_result ''/tmp/work/processed.json'' 100)"
      unfolding app n by blast+
    have l': "length prs = 100"
      using l by simp
    have c': "py_getitem (processed_data demo_platform ''/tmp/work/loaded.json'' (JInt 1000) prs)
                ''processed_records_count'' = Inr (JInt 100)"
      using c by simp
    from e have e0: "py_getitem (prs ! 0) ''id''
               = py_getitem (map (sample_record demo_base) [1..100] ! 0) ''id''
           \<and> (\<forall>v. py_getitem (map (sample_record demo_base) [1..100] ! 0) ''value'' = Inr (JStr v)
                 \<longrightarrow> py_getitem (prs ! 0) ''processed_value''
                       = Inr (JStr (str_upper demo_platform v)))"
      unfolding n by (elim allE[of _ 0]) simp
    have i0: "py_getitem (prs ! 0) ''id'' = Inr (JInt 1)"
      using e0 demo_first_record(1) by simp
    from e0 demo_first_record(2)
    have "py_getitem (prs ! 0) ''processed_value'' = Inr (JStr (str_upper demo_platform ''record_1''))"
      by blast
    then have v0: "py_getitem (prs ! 0) ''processed_value'' = Inr (JStr ''RECORD_1'')"
      unfolding demo_first_record(3) .
    show ?thesis
      by (intro conjI exI[of _ prs] r p l' fa dt c' i0 v0 la)
  qed
  show ?thesis
    by (intro conjI demo_loaded_file demo_parses sample_data_items sample_records_loaded
          demo_loaded_dir demo_plain(2) demo_loaded_fresh demo_first_record(1,2)
          main[THEN conjunct1] main[THEN conjunct2, THEN conjunct1]
          main[THEN conjunct2, THEN conjunct2])
qed

end
